theory Spec2Isabelle
  imports Main "HOL-Library.Word"
begin

unbundle bit_operations_syntax

section \<open>Data model of base/debug/activity_tracker.cc\<close>

text \<open>
  The model follows a 64-bit build without SYZYASAN. Pointers and \<open>size_t\<close> are
  64-bit words, \<open>uint32_t\<close> is a 32-bit word and all arithmetic on them wraps as the
  unsigned C++ arithmetic does. The \<open>DCHECK\<close>s of the source are assertions of debug
  builds: they are not part of the functions below, and where a property needs one it is a
  hypothesis of the theorem.
\<close>

type_synonym ActivityType = "8 word"
type_synonym ActivityData = "64 word"

text \<open>
  Modelled from the spec: the enumerators \<open>ACT_NULL\<close>, \<open>ACT_GENERIC\<close> and
  \<open>ACT_CATEGORY_MASK\<close> are declared in activity_tracker.h, which is not part of the
  source file. The spec describes the tag as 8 bits, a 4-bit category plus a 4-bit
  sub-action, with NULL as the "do not change" sentinel.
\<close>

definition ACT_NULL :: ActivityType where
  "ACT_NULL = 0"

definition ACT_GENERIC :: ActivityType where
  "ACT_GENERIC = 0xF0"

definition ACT_CATEGORY_MASK :: ActivityType where
  "ACT_CATEGORY_MASK = 0xF0"

text \<open>
  A \<open>const ActivityData&\<close> argument. Only the address of \<open>kNullActivityData\<close> matters
  to the code, so a reference is either that static object itself or some other object
  with the given contents. The static object is value-initialised (\<open>= {}\<close>): all zeros.
\<close>

datatype data_ref = kNullActivityData | DataAt ActivityData

fun deref :: "data_ref \<Rightarrow> ActivityData" where
  "deref kNullActivityData = 0"
| "deref (DataAt d) = d"

text \<open>
  One \<open>Activity\<close> record. The payload union is kept as its 64 bits. \<open>call_stack\<close> is
  part of the record but is never written in this build.
\<close>

record Activity =
  time_internal :: "64 word"
  origin_address :: "64 word"
  activity_type :: ActivityType
  call_stack :: "nat \<Rightarrow> 64 word"
  data :: ActivityData

text \<open>The \<open>ActivitySnapshot\<close> filled in by \<open>Snapshot\<close>.\<close>

record ActivitySnapshot =
  activity_stack :: "Activity list"
  activity_stack_depth :: "32 word"
  thread_name :: "8 word list"
  thread_id :: "64 word"
  process_id :: "64 word"

text \<open>\<open>struct ThreadActivityTracker::Header\<close>; \<open>thread_name\<close> is the 32-byte buffer.\<close>

record Header =
  cookie :: "64 word"
  process_id :: "64 word"
  thread_ref :: "64 word"
  start_time :: "64 word"
  start_ticks :: "64 word"
  stack_slots :: "32 word"
  current_depth :: "32 word"
  stack_unchanged :: "32 word"
  thread_name :: "nat \<Rightarrow> 8 word"

definition kHeaderCookie :: "64 word" where
  "kHeaderCookie = 0xC0029B240D4A3092 + 1"

definition kMinStackDepth :: "64 word" where
  "kMinStackDepth = 2"

text \<open>\<open>sizeof(Header)\<close> of the structure above: 52 bytes of scalars, the 32-byte name, padded to 8.\<close>

definition sizeof_Header :: "64 word" where
  "sizeof_Header = 88"

text \<open>
  A tracker whose \<open>header_\<close> points at readable memory: \<open>hdr\<close> is the header found
  at \<open>header_\<close>, \<open>stack\<close> is the memory starting at \<open>stack_\<close> seen as an array of records
  (indexed by any offset, so a store beyond the region's slots stays visible), and the two
  remaining fields are the members \<open>stack_slots_\<close> and \<open>valid_\<close>.
\<close>

record ThreadActivityTracker =
  hdr :: Header
  stack :: "nat \<Rightarrow> Activity"
  stack_slots_member :: "32 word"
  valid_member :: bool

section \<open>The single-writer operations\<close>

text \<open>\<open>PushActivity\<close>; \<open>now\<close> is the value of \<open>TimeTicks::Now()\<close>.\<close>

definition PushActivity ::
  "ThreadActivityTracker \<Rightarrow> 64 word \<Rightarrow> 64 word \<Rightarrow> ActivityType \<Rightarrow> data_ref
    \<Rightarrow> ThreadActivityTracker" where
  "PushActivity t now origin ty d =
     (let depth = current_depth (hdr t) in
      if depth \<ge> stack_slots_member t
      then t\<lparr>hdr := (hdr t)\<lparr>current_depth := depth + 1\<rparr>\<rparr>
      else
        let activity = (stack t (unat depth))
              \<lparr>time_internal := now, origin_address := origin,
               activity_type := ty, data := deref d\<rparr>
        in t\<lparr>stack := (stack t)(unat depth := activity),
             hdr := (hdr t)\<lparr>current_depth := depth + 1\<rparr>\<rparr>)"

text \<open>
  \<open>ChangeActivity\<close>. The index \<open>depth - 1\<close> is computed in \<open>uint32_t\<close>, as in the code.
\<close>

definition ChangeActivity ::
  "ThreadActivityTracker \<Rightarrow> ActivityType \<Rightarrow> data_ref \<Rightarrow> ThreadActivityTracker" where
  "ChangeActivity t ty d =
     (let depth = current_depth (hdr t) in
      if depth \<le> stack_slots_member t
      then
        let i = unat (depth - 1);
            a1 = (if ty \<noteq> ACT_NULL then (stack t i)\<lparr>activity_type := ty\<rparr> else stack t i);
            a2 = (if d \<noteq> kNullActivityData then a1\<lparr>data := deref d\<rparr> else a1)
        in t\<lparr>stack := (stack t)(i := a2)\<rparr>
      else t)"

text \<open>\<open>PopActivity\<close>: \<open>fetch_sub(1)\<close> on the depth, then the tear flag is cleared.\<close>

definition PopActivity :: "ThreadActivityTracker \<Rightarrow> ThreadActivityTracker" where
  "PopActivity t =
     t\<lparr>hdr := (hdr t)\<lparr>current_depth := current_depth (hdr t) - 1, stack_unchanged := 0\<rparr>\<rparr>"

definition IsValid :: "ThreadActivityTracker \<Rightarrow> bool" where
  "IsValid t =
     (if cookie (hdr t) \<noteq> kHeaderCookie \<or>
         Header.process_id (hdr t) = 0 \<or>
         thread_ref (hdr t) = 0 \<or>
         start_time (hdr t) = 0 \<or>
         start_ticks (hdr t) = 0 \<or>
         stack_slots (hdr t) \<noteq> stack_slots_member t \<or>
         Header.thread_name (hdr t) 31 \<noteq> 0
      then False
      else valid_member t)"

section \<open>Snapshot\<close>

text \<open>
  The conversion of one time stamp from ticks to wall time:
  \<open>(start_time + TimeDelta::FromInternalValue(time_internal - start_ticks)).ToInternalValue()\<close>.
  The subtraction is the code's own 64-bit subtraction; the addition of \<open>Time\<close> and
  \<open>TimeDelta\<close> belongs to base/time, which is not part of the source, and is the
  parameter \<open>time_plus\<close>.
\<close>

definition to_wall_time ::
  "(64 word \<Rightarrow> 64 word \<Rightarrow> 64 word) \<Rightarrow> Header \<Rightarrow> Activity \<Rightarrow> Activity" where
  "to_wall_time time_plus h a =
     a\<lparr>time_internal := time_plus (start_time h) (time_internal a - start_ticks h)\<rparr>"

text \<open>
  \<open>std::string(header_->thread_name, sizeof(header_->thread_name) - 1)\<close> followed by
  the \<open>resize(strlen(...))\<close>.
\<close>

definition snapshot_thread_name :: "Header \<Rightarrow> 8 word list" where
  "snapshot_thread_name h = takeWhile (\<lambda>c. c \<noteq> 0) (map (Header.thread_name h) [0..<31])"

text \<open>
  The attempt loop of \<open>Snapshot\<close>; the first argument counts the attempts that are left.
  The function returns the result, the output snapshot and the tracker memory (the loop
  stores to \<open>stack_unchanged\<close>).
\<close>

fun snapshot_attempts ::
  "(64 word \<Rightarrow> 64 word \<Rightarrow> 64 word) \<Rightarrow> nat \<Rightarrow> ThreadActivityTracker \<Rightarrow> ActivitySnapshot
    \<Rightarrow> bool \<times> ActivitySnapshot \<times> ThreadActivityTracker" where
  "snapshot_attempts time_plus 0 t out = (False, out, t)"
| "snapshot_attempts time_plus (Suc n) t out =
     (let starting_process_id = Header.process_id (hdr t);
          starting_thread_id = thread_ref (hdr t);
          t1 = t\<lparr>hdr := (hdr t)\<lparr>stack_unchanged := 1\<rparr>\<rparr>;
          depth = current_depth (hdr t1);
          count = min depth (stack_slots_member t1);
          out1 = out\<lparr>activity_stack := map (stack t1) [0..<unat count]\<rparr>
      in if stack_unchanged (hdr t1) = 0 then snapshot_attempts time_plus n t1 out1
         else
           let out2 = out1\<lparr>activity_stack_depth := depth,
                          ActivitySnapshot.thread_name := snapshot_thread_name (hdr t1),
                          thread_id := thread_ref (hdr t1),
                          ActivitySnapshot.process_id := Header.process_id (hdr t1)\<rparr>
           in if ActivitySnapshot.process_id out2 \<noteq> starting_process_id \<or>
                 thread_id out2 \<noteq> starting_thread_id
              then snapshot_attempts time_plus n t1 out2
              else if \<not> IsValid t1 then (False, out2, t1)
              else (True,
                    out2\<lparr>activity_stack :=
                           map (to_wall_time time_plus (hdr t1)) (activity_stack out2)\<rparr>,
                    t1))"

definition kMaxAttempts :: nat where
  "kMaxAttempts = 10"

definition Snapshot ::
  "(64 word \<Rightarrow> 64 word \<Rightarrow> 64 word) \<Rightarrow> ThreadActivityTracker \<Rightarrow> ActivitySnapshot
    \<Rightarrow> bool \<times> ActivitySnapshot \<times> ThreadActivityTracker" where
  "Snapshot time_plus t out =
     (if \<not> IsValid t then (False, out, t)
      else snapshot_attempts time_plus kMaxAttempts t out)"


section \<open>Sequences of writer operations and the naive reference stack\<close>

datatype op = Push "64 word" "64 word" ActivityType data_ref
            | Change ActivityType data_ref
            | Pop

fun apply_op :: "ThreadActivityTracker \<Rightarrow> op \<Rightarrow> ThreadActivityTracker" where
  "apply_op t (Push now origin ty d) = PushActivity t now origin ty d"
| "apply_op t (Change ty d) = ChangeActivity t ty d"
| "apply_op t Pop = PopActivity t"

text \<open>
  The writer performs the operations one after the other; after each of them a reader
  takes a snapshot into \<open>out0\<close>, and the writer goes on from the memory the snapshot left.
\<close>

fun snapshots_after_each ::
  "(64 word \<Rightarrow> 64 word \<Rightarrow> 64 word) \<Rightarrow> ActivitySnapshot \<Rightarrow> ThreadActivityTracker \<Rightarrow> op list
    \<Rightarrow> (bool \<times> ActivitySnapshot) list" where
  "snapshots_after_each time_plus out0 t [] = []"
| "snapshots_after_each time_plus out0 t (x # xs) =
     (case Snapshot time_plus (apply_op t x) out0 of
        (ok, out, t') \<Rightarrow> (ok, out) # snapshots_after_each time_plus out0 t' xs)"

text \<open>
  The reference model in the words of the spec: the stack "the writer would compute
  naively" is an unbounded list of records in push order; a push appends a record, a change
  edits the last record, a pop drops it. The snapshot of such a stack holds its first
  \<open>n\<close> records, with the time stamps in wall time, and the full depth.
\<close>

definition naive_record :: "64 word \<Rightarrow> 64 word \<Rightarrow> ActivityType \<Rightarrow> ActivityData \<Rightarrow> Activity" where
  "naive_record now origin ty v =
     \<lparr>time_internal = now, origin_address = origin, activity_type = ty,
      call_stack = (\<lambda>_. 0), data = v\<rparr>"

definition change_record :: "ActivityType \<Rightarrow> data_ref \<Rightarrow> Activity \<Rightarrow> Activity" where
  "change_record ty d a =
     a\<lparr>activity_type := (if ty \<noteq> ACT_NULL then ty else activity_type a),
       data := (if d \<noteq> kNullActivityData then deref d else data a)\<rparr>"

fun naive_op :: "Activity list \<Rightarrow> op \<Rightarrow> Activity list" where
  "naive_op st (Push now origin ty d) = st @ [naive_record now origin ty (deref d)]"
| "naive_op st (Change ty d) =
     (if st = [] then st else butlast st @ [change_record ty d (last st)])"
| "naive_op st Pop = butlast st"

fun naive_states :: "Activity list \<Rightarrow> op list \<Rightarrow> Activity list list" where
  "naive_states st [] = []"
| "naive_states st (x # xs) = naive_op st x # naive_states (naive_op st x) xs"

definition naive_snapshot ::
  "(64 word \<Rightarrow> 64 word \<Rightarrow> 64 word) \<Rightarrow> Header \<Rightarrow> nat \<Rightarrow> Activity list \<Rightarrow> ActivitySnapshot" where
  "naive_snapshot time_plus h n st =
     \<lparr>activity_stack = map (to_wall_time time_plus h) (take (min (length st) n) st),
      activity_stack_depth = of_nat (length st),
      thread_name = snapshot_thread_name h,
      thread_id = thread_ref h,
      process_id = Header.process_id h\<rparr>"

text \<open>
  The writer's contract: \<open>ChangeActivity\<close> and \<open>PopActivity\<close> assert a depth above zero
  (\<open>DCHECK_LT(0U, depth)\<close>). The depth counter has 32 bits; \<open>op_allowed\<close> also keeps the
  number of open activities below \<open>2 ^ 32\<close>.
\<close>

fun op_allowed :: "Activity list \<Rightarrow> op \<Rightarrow> bool" where
  "op_allowed st (Push now origin ty d) = (length st + 1 < 2 ^ 32)"
| "op_allowed st (Change ty d) = (st \<noteq> [])"
| "op_allowed st Pop = (st \<noteq> [])"

fun ops_allowed :: "Activity list \<Rightarrow> op list \<Rightarrow> bool" where
  "ops_allowed st [] = True"
| "ops_allowed st (x # xs) = (op_allowed st x \<and> ops_allowed (naive_op st x) xs)"

text \<open>
  \<open>same_identity\<close>: two headers agree on every field but the depth and the tear flag.
  \<open>mirrors t0 t st\<close>: the tracker \<open>t\<close>, born as \<open>t0\<close>, holds the naive stack \<open>st\<close>: the
  depth is its length, the recorded slots hold its first records, and no call stack was
  ever written (the region was zero at birth).
\<close>

definition same_identity :: "Header \<Rightarrow> Header \<Rightarrow> bool" where
  "same_identity h h' =
     (h\<lparr>current_depth := 0, stack_unchanged := 0\<rparr> = h'\<lparr>current_depth := 0, stack_unchanged := 0\<rparr>)"

definition mirrors :: "ThreadActivityTracker \<Rightarrow> ThreadActivityTracker \<Rightarrow> Activity list \<Rightarrow> bool" where
  "mirrors t0 t st =
     (unat (current_depth (hdr t)) = length st \<and>
      (\<forall>i. i < length st \<longrightarrow> i < unat (stack_slots_member t) \<longrightarrow> stack t i = st ! i) \<and>
      (\<forall>i. call_stack (stack t i) = (\<lambda>_. 0)) \<and>
      same_identity (hdr t) (hdr t0) \<and>
      stack_slots_member t = stack_slots_member t0 \<and>
      valid_member t = valid_member t0)"

section \<open>Construction\<close>

text \<open>
  What the constructor asks of the platform: the size of an \<open>Activity\<close> (the structure is
  declared in the header file), the current thread's handle and name, the two clocks and
  the process id.
\<close>

record platform =
  sizeof_Activity :: "64 word"
  current_thread_ref :: "64 word"
  time_now :: "64 word"
  ticks_now :: "64 word"
  current_thread_name :: "8 word list"
  current_proc_id :: "64 word"

text \<open>
  Modelled from the spec: \<open>strlcpy\<close> belongs to base/strings, which is not part of the
  source; the spec calls the name a fixed 32-byte buffer, NUL-padded. As the library
  function does, \<open>strlcpy(dst, src, dsize)\<close> copies at most \<open>dsize - 1\<close> characters and
  writes a NUL after them; the rest of the buffer is left as it was.
\<close>

definition strlcpy :: "(nat \<Rightarrow> 8 word) \<Rightarrow> 8 word list \<Rightarrow> nat \<Rightarrow> (nat \<Rightarrow> 8 word)" where
  "strlcpy dst src dsize =
     (let n = min (length src) (dsize - 1)
      in (\<lambda>i. if i < n then src ! i else if i = n \<and> 0 < dsize then 0 else dst i))"

text \<open>The branch \<open>header_->cookie == 0\<close> of the constructor, in the order of the stores.\<close>

definition initialise :: "platform \<Rightarrow> ThreadActivityTracker \<Rightarrow> ThreadActivityTracker" where
  "initialise p t =
     t\<lparr>hdr := (hdr t)
          \<lparr>thread_ref := current_thread_ref p,
           start_time := time_now p,
           start_ticks := ticks_now p,
           stack_slots := stack_slots_member t,
           Header.thread_name := strlcpy (Header.thread_name (hdr t)) (current_thread_name p) 32,
           cookie := kHeaderCookie,
           Header.process_id := current_proc_id p\<rparr>,
       valid_member := True\<rparr>"

text \<open>
  The tracker object with its pointer. \<open>memory\<close> tells what is readable at an address:
  a header followed by records, or nothing. Reading through \<open>header_\<close> where nothing is
  mapped is a fault.
\<close>

type_synonym memory = "64 word \<Rightarrow> (Header \<times> (nat \<Rightarrow> Activity)) option"

record tracker_object =
  header_ptr :: "64 word"
  object_stack_slots :: "32 word"
  object_valid :: bool

datatype fault = InvalidMemoryAccess

definition through_header :: "memory \<Rightarrow> tracker_object \<Rightarrow> fault + ThreadActivityTracker" where
  "through_header m obj =
     (case m (header_ptr obj) of
        None \<Rightarrow> Inl InvalidMemoryAccess
      | Some (h, s) \<Rightarrow>
          Inr \<lparr>hdr = h, stack = s, stack_slots_member = object_stack_slots obj,
               valid_member = object_valid obj\<rparr>)"

definition write_back ::
  "memory \<Rightarrow> tracker_object \<Rightarrow> ThreadActivityTracker \<Rightarrow> memory \<times> tracker_object" where
  "write_back m obj t =
     (m(header_ptr obj \<mapsto> (hdr t, stack t)),
      obj\<lparr>object_stack_slots := stack_slots_member t, object_valid := valid_member t\<rparr>)"

text \<open>
  Modelled from the spec: the member \<open>valid_\<close> is declared in the header file, which is not
  part of the source. The constructor's early return leaves it at its initial value, and the
  spec says the tracker is then in a permanent invalid state, so the initial value is
  \<open>False\<close>. The rest is the constructor of the source; \<open>NOTREACHED()\<close> is taken as in a
  release build, where it does nothing.
\<close>

definition new_ThreadActivityTracker ::
  "platform \<Rightarrow> memory \<Rightarrow> 64 word \<Rightarrow> 64 word \<Rightarrow> fault + (memory \<times> tracker_object)" where
  "new_ThreadActivityTracker p m base sz =
     (let obj = \<lparr>header_ptr = base,
                 object_stack_slots = ucast ((sz - sizeof_Header) div sizeof_Activity p),
                 object_valid = False\<rparr>
      in if base = 0 \<or>
            sz < sizeof_Header + kMinStackDepth * sizeof_Activity p \<or>
            (sz - sizeof_Header) div sizeof_Activity p > 0xFFFFFFFF
         then Inr (m, obj)
         else
           case through_header m obj of
             Inl f \<Rightarrow> Inl f
           | Inr t \<Rightarrow>
               if cookie (hdr t) = 0 then Inr (write_back m obj (initialise p t))
               else Inr (m, obj\<lparr>object_valid := IsValid (t\<lparr>valid_member := True\<rparr>)\<rparr>))"

definition IsValid_object :: "memory \<Rightarrow> tracker_object \<Rightarrow> fault + bool" where
  "IsValid_object m obj =
     (case through_header m obj of Inl f \<Rightarrow> Inl f | Inr t \<Rightarrow> Inr (IsValid t))"

definition PushActivity_object ::
  "memory \<Rightarrow> tracker_object \<Rightarrow> 64 word \<Rightarrow> 64 word \<Rightarrow> ActivityType \<Rightarrow> data_ref
    \<Rightarrow> fault + (memory \<times> tracker_object)" where
  "PushActivity_object m obj now origin ty d =
     (case through_header m obj of
        Inl f \<Rightarrow> Inl f
      | Inr t \<Rightarrow> Inr (write_back m obj (PushActivity t now origin ty d)))"

definition Snapshot_object ::
  "(64 word \<Rightarrow> 64 word \<Rightarrow> 64 word) \<Rightarrow> memory \<Rightarrow> tracker_object \<Rightarrow> ActivitySnapshot
    \<Rightarrow> fault + (bool \<times> ActivitySnapshot \<times> memory \<times> tracker_object)" where
  "Snapshot_object time_plus m obj out =
     (case through_header m obj of
        Inl f \<Rightarrow> Inl f
      | Inr t \<Rightarrow>
          (case Snapshot time_plus t out of
             (ok, out', t') \<Rightarrow> Inr (ok, out', write_back m obj t')))"

text \<open>A zeroed region, and the tracker a thread gets from the constructor on it.\<close>

definition zero_activity :: Activity where
  "zero_activity =
     \<lparr>time_internal = 0, origin_address = 0, activity_type = 0, call_stack = (\<lambda>_. 0), data = 0\<rparr>"

definition zero_header :: Header where
  "zero_header =
     \<lparr>cookie = 0, process_id = 0, thread_ref = 0, start_time = 0, start_ticks = 0,
      stack_slots = 0, current_depth = 0, stack_unchanged = 0, thread_name = (\<lambda>_. 0)\<rparr>"

definition example_platform :: platform where
  "example_platform =
     \<lparr>sizeof_Activity = 112, current_thread_ref = 7, time_now = 1000, ticks_now = 10,
      current_thread_name = [0x6D, 0x61, 0x69, 0x6E], current_proc_id = 42\<rparr>"

text \<open>A fresh tracker with two slots: the constructor's initialisation of a zeroed region.\<close>

definition fresh_tracker :: ThreadActivityTracker where
  "fresh_tracker =
     initialise example_platform
       \<lparr>hdr = zero_header, stack = (\<lambda>_. zero_activity), stack_slots_member = 2,
        valid_member = False\<rparr>"

definition blank_snapshot :: ActivitySnapshot where
  "blank_snapshot =
     \<lparr>activity_stack = [], activity_stack_depth = 0, thread_name = [], thread_id = 0,
      process_id = 0\<rparr>"

section \<open>Example inputs\<close>

fun is_push :: "op \<Rightarrow> bool" where
  "is_push (Push now origin ty d) = True"
| "is_push (Change ty d) = False"
| "is_push Pop = False"

definition activity_A :: op where
  "activity_A = Push 11 0x1000 (ACT_GENERIC OR 1) (DataAt 1)"

definition activity_B :: op where
  "activity_B = Push 12 0x2000 (ACT_GENERIC OR 2) (DataAt 2)"

definition activity_C :: op where
  "activity_C = Push 13 0x3000 (ACT_GENERIC OR 3) (DataAt 3)"

definition tracker_with_A :: ThreadActivityTracker where
  "tracker_with_A = apply_op fresh_tracker activity_A"

definition scenario_S2 :: "op list" where
  "scenario_S2 = [activity_A, activity_B, activity_C, Pop, Pop]"

section \<open>Snapshot step by step, against a running writer\<close>

text \<open>
  \<open>Snapshot\<close> may run on another thread while the owner of the tracker works on the same
  memory. Here the body of \<open>Snapshot\<close> is cut into its accesses to the shared region, one step
  each, in the order of the source; the \<open>memcpy\<close> of the records is cut into the fields of
  each record, in ascending order of the records and, within a record, in the order in which
  the spec lists the fields of \<open>Activity\<close> (\<open>activity_type\<close> lies before \<open>data\<close>).
  \<open>IsValid\<close> and the conversion of the time stamps are one step each.
\<close>

datatype field = F_time_internal | F_origin_address | F_activity_type | F_call_stack | F_data

fun copy_field :: "field \<Rightarrow> Activity \<Rightarrow> Activity \<Rightarrow> Activity" where
  "copy_field F_time_internal src dst = dst\<lparr>time_internal := time_internal src\<rparr>"
| "copy_field F_origin_address src dst = dst\<lparr>origin_address := origin_address src\<rparr>"
| "copy_field F_activity_type src dst = dst\<lparr>activity_type := activity_type src\<rparr>"
| "copy_field F_call_stack src dst = dst\<lparr>call_stack := call_stack src\<rparr>"
| "copy_field F_data src dst = dst\<lparr>data := data src\<rparr>"

fun next_field :: "field \<Rightarrow> field option" where
  "next_field F_time_internal = Some F_origin_address"
| "next_field F_origin_address = Some F_activity_type"
| "next_field F_activity_type = Some F_call_stack"
| "next_field F_call_stack = Some F_data"
| "next_field F_data = None"

text \<open>The program points of \<open>Snapshot\<close>, named after the access that comes next.\<close>

datatype snapshot_pc =
    AtEntry
  | AtLoopTest
  | AtLoadProcessId
  | AtLoadThreadId
  | AtStoreUnchanged
  | AtLoadDepth
  | AtCopy nat field
  | AtLoadUnchanged
  | AtReadThreadName
  | AtReadThreadId
  | AtLoadProcessIdAgain
  | AtRevalidate
  | AtConvertTimes
  | Returned bool

text \<open>
  The locals of \<open>Snapshot\<close> and the caller's output object (\<open>depth_read\<close> and \<open>count_read\<close>
  are the locals \<open>depth\<close> and \<open>count\<close>).
\<close>

record reader =
  pc :: snapshot_pc
  attempt :: nat
  starting_process_id :: "64 word"
  starting_thread_id :: "64 word"
  depth_read :: "32 word"
  count_read :: "32 word"
  output_snapshot :: ActivitySnapshot

definition start_reader :: "ActivitySnapshot \<Rightarrow> reader" where
  "start_reader out =
     \<lparr>pc = AtEntry, attempt = 0, starting_process_id = 0, starting_thread_id = 0,
      depth_read = 0, count_read = 0, output_snapshot = out\<rparr>"

text \<open>\<open>std::vector::resize\<close>: the first elements stay, new elements are value-initialised.\<close>

definition resize_stack :: "nat \<Rightarrow> Activity list \<Rightarrow> Activity list" where
  "resize_stack n xs = take n xs @ replicate (n - length xs) zero_activity"

text \<open>The \<open>continue\<close> of the attempt loop: \<open>++attempt\<close>, then the loop test.\<close>

definition retry :: "reader \<Rightarrow> reader" where
  "retry r = r\<lparr>attempt := attempt r + 1, pc := AtLoopTest\<rparr>"

fun reader_step ::
  "(64 word \<Rightarrow> 64 word \<Rightarrow> 64 word) \<Rightarrow> ThreadActivityTracker \<Rightarrow> reader
    \<Rightarrow> ThreadActivityTracker \<times> reader" where
  "reader_step time_plus t r =
     (case pc r of
        AtEntry \<Rightarrow>
          (t, if \<not> IsValid t then r\<lparr>pc := Returned False\<rparr> else r\<lparr>pc := AtLoopTest\<rparr>)
      | AtLoopTest \<Rightarrow>
          (t, if attempt r < kMaxAttempts then r\<lparr>pc := AtLoadProcessId\<rparr>
              else r\<lparr>pc := Returned False\<rparr>)
      | AtLoadProcessId \<Rightarrow>
          (t, r\<lparr>starting_process_id := Header.process_id (hdr t), pc := AtLoadThreadId\<rparr>)
      | AtLoadThreadId \<Rightarrow>
          (t, r\<lparr>starting_thread_id := thread_ref (hdr t), pc := AtStoreUnchanged\<rparr>)
      | AtStoreUnchanged \<Rightarrow>
          (t\<lparr>hdr := (hdr t)\<lparr>stack_unchanged := 1\<rparr>\<rparr>, r\<lparr>pc := AtLoadDepth\<rparr>)
      | AtLoadDepth \<Rightarrow>
          (let d = current_depth (hdr t);
               c = min d (stack_slots_member t);
               out = (output_snapshot r)
                 \<lparr>activity_stack :=
                    resize_stack (unat c) (activity_stack (output_snapshot r))\<rparr>
           in (t, r\<lparr>depth_read := d, count_read := c, output_snapshot := out,
                    pc := (if c > 0 then AtCopy 0 F_time_internal else AtLoadUnchanged)\<rparr>))
      | AtCopy i f \<Rightarrow>
          (let out = (output_snapshot r)
                 \<lparr>activity_stack :=
                    (activity_stack (output_snapshot r))
                      [i := copy_field f (stack t i) (activity_stack (output_snapshot r) ! i)]\<rparr>
           in (t, r\<lparr>output_snapshot := out,
                    pc := (case next_field f of
                             Some f' \<Rightarrow> AtCopy i f'
                           | None \<Rightarrow>
                               if Suc i < unat (count_read r) then AtCopy (Suc i) F_time_internal
                               else AtLoadUnchanged)\<rparr>))
      | AtLoadUnchanged \<Rightarrow>
          (t, if stack_unchanged (hdr t) = 0 then retry r
              else r\<lparr>output_snapshot :=
                       (output_snapshot r)\<lparr>activity_stack_depth := depth_read r\<rparr>,
                     pc := AtReadThreadName\<rparr>)
      | AtReadThreadName \<Rightarrow>
          (t, r\<lparr>output_snapshot :=
                  (output_snapshot r)
                    \<lparr>ActivitySnapshot.thread_name := map (Header.thread_name (hdr t)) [0..<31]\<rparr>,
                pc := AtReadThreadId\<rparr>)
      | AtReadThreadId \<Rightarrow>
          (t, r\<lparr>output_snapshot := (output_snapshot r)\<lparr>thread_id := thread_ref (hdr t)\<rparr>,
                pc := AtLoadProcessIdAgain\<rparr>)
      | AtLoadProcessIdAgain \<Rightarrow>
          (let out = (output_snapshot r)
                 \<lparr>ActivitySnapshot.process_id := Header.process_id (hdr t),
                  ActivitySnapshot.thread_name :=
                    takeWhile (\<lambda>c. c \<noteq> 0) (ActivitySnapshot.thread_name (output_snapshot r))\<rparr>;
               r' = r\<lparr>output_snapshot := out\<rparr>
           in (t, if ActivitySnapshot.process_id out \<noteq> starting_process_id r \<or>
                     thread_id out \<noteq> starting_thread_id r
                  then retry r'
                  else r'\<lparr>pc := AtRevalidate\<rparr>))
      | AtRevalidate \<Rightarrow>
          (t, if \<not> IsValid t then r\<lparr>pc := Returned False\<rparr> else r\<lparr>pc := AtConvertTimes\<rparr>)
      | AtConvertTimes \<Rightarrow>
          (t, r\<lparr>output_snapshot :=
                  (output_snapshot r)
                    \<lparr>activity_stack :=
                       map (to_wall_time time_plus (hdr t))
                           (activity_stack (output_snapshot r))\<rparr>,
                pc := Returned True\<rparr>)
      | Returned b \<Rightarrow> (t, r))"

text \<open>
  What the owner of the region does between two steps of the reader: a whole writer
  operation, or (when its thread exits) the \<open>memset\<close> with which \<open>ReturnTrackerMemory\<close> clears
  the header and the \<open>n\<close> records of the block. Taking these as single steps leaves out
  interleavings, it adds none: the reader may always be delayed for that long.
\<close>

definition zeroed_block :: "nat \<Rightarrow> ThreadActivityTracker \<Rightarrow> ThreadActivityTracker" where
  "zeroed_block n t =
     t\<lparr>hdr := zero_header, stack := (\<lambda>i. if i < n then zero_activity else stack t i)\<rparr>"

datatype event = ReaderStep | WriterOp op | OwnerExit nat

fun interleave_step ::
  "(64 word \<Rightarrow> 64 word \<Rightarrow> 64 word) \<Rightarrow> ThreadActivityTracker \<times> reader \<Rightarrow> event
    \<Rightarrow> ThreadActivityTracker \<times> reader" where
  "interleave_step time_plus (t, r) ReaderStep = reader_step time_plus t r"
| "interleave_step time_plus (t, r) (WriterOp x) = (apply_op t x, r)"
| "interleave_step time_plus (t, r) (OwnerExit n) = (zeroed_block n t, r)"

definition run_schedule ::
  "(64 word \<Rightarrow> 64 word \<Rightarrow> 64 word) \<Rightarrow> event list \<Rightarrow> ThreadActivityTracker \<times> reader
    \<Rightarrow> ThreadActivityTracker \<times> reader" where
  "run_schedule time_plus evs s = foldl (interleave_step time_plus) s evs"

text \<open>The reader running \<open>n\<close> steps with nothing in between.\<close>

definition reader_alone ::
  "(64 word \<Rightarrow> 64 word \<Rightarrow> 64 word) \<Rightarrow> nat \<Rightarrow> ThreadActivityTracker \<times> reader
    \<Rightarrow> ThreadActivityTracker \<times> reader" where
  "reader_alone tp n s = run_schedule tp (replicate n ReaderStep) s"

text \<open>
  The schedule of a torn read: the reader copies the first three fields of record 0, the
  writer changes type and payload in place, the reader copies the remaining fields and
  finishes the call.
\<close>

definition torn_read_schedule :: "event list" where
  "torn_read_schedule =
     [ReaderStep, ReaderStep, ReaderStep, ReaderStep, ReaderStep, ReaderStep,
      ReaderStep, ReaderStep, ReaderStep,
      WriterOp (Change (ACT_GENERIC OR 7) (DataAt 9)),
      ReaderStep, ReaderStep,
      ReaderStep, ReaderStep, ReaderStep, ReaderStep, ReaderStep, ReaderStep]"



section \<open>The global tracker and its free list\<close>

text \<open>
  Modelled from the spec: the persistent allocator is an external collaborator. A
  \<open>Reference\<close> is an opaque integer, 0 on failure; every block carries a type tag, two tags are
  reserved (live tracker, free tracker), and \<open>ChangeType(ref, new_type, old_type)\<close> is an
  atomic compare-and-swap on the tag.
\<close>

type_synonym Reference = "32 word"

datatype type_id = kTypeIdActivityTracker | kTypeIdActivityTrackerFree | OtherTypeId

text \<open>
  The state the global tracker works on: the blocks of memory by base address, the
  allocator's type tags, and the members \<open>thread_tracker_count_\<close>, \<open>available_memories_\<close>
  and \<open>available_memories_count_\<close>. \<open>stack_depth\<close> stands for \<open>stack_memory_size_\<close>, which
  is \<open>SizeForStackDepth(stack_depth)\<close>: the header and \<open>stack_depth\<close> records. The array is
  indexed by the \<open>int\<close> the code indexes it with.
\<close>

record GlobalActivityTracker =
  memory_blocks :: memory
  block_types :: "Reference \<Rightarrow> type_id"
  stack_depth :: nat
  thread_tracker_count :: int
  available_memories :: "int \<Rightarrow> Reference"
  available_memories_count :: int

text \<open>
  Modelled from the spec: \<open>ChangeType(ref, new_type, old_type)\<close> of the persistent
  allocator, an atomic compare-and-swap on the block's type tag.
\<close>

definition ChangeType ::
  "GlobalActivityTracker \<Rightarrow> Reference \<Rightarrow> type_id \<Rightarrow> type_id \<Rightarrow> GlobalActivityTracker \<times> bool" where
  "ChangeType g ref to_type from_type =
     (if block_types g ref = from_type
      then (g\<lparr>block_types := (block_types g)(ref := to_type)\<rparr>, True)
      else (g, False))"

text \<open>\<open>memset(mem_base, 0, stack_memory_size_)\<close> on the block at \<open>base\<close>.\<close>

definition zero_region :: "nat \<Rightarrow> Header \<times> (nat \<Rightarrow> Activity) \<Rightarrow> Header \<times> (nat \<Rightarrow> Activity)" where
  "zero_region n blk = (zero_header, (\<lambda>i. if i < n then zero_activity else snd blk i))"

definition memset_block :: "nat \<Rightarrow> 64 word \<Rightarrow> memory \<Rightarrow> memory" where
  "memset_block n base m = m(base := map_option (zero_region n) (m base))"

text \<open>
  The loop of \<open>ReturnTrackerMemory\<close> that pushes a reference on the free list, one atomic
  access per step. \<open>K\<close> is \<open>kMaxThreadCount\<close>, a constant of the header file. The program
  points carry the local \<open>count\<close>; \<open>ReturnDone\<close> tells whether the reference was pushed
  (\<open>True\<close>) or the block was abandoned because the list is full (\<open>False\<close>).
\<close>

datatype return_pc =
    LoadCountToPush
  | CasSlot int
  | CasCount int
  | ClearSlot int
  | ReturnDone bool

fun return_step ::
  "int \<Rightarrow> GlobalActivityTracker \<Rightarrow> Reference \<Rightarrow> return_pc \<Rightarrow> GlobalActivityTracker \<times> return_pc" where
  "return_step K g ref LoadCountToPush =
     (let count = available_memories_count g
      in (g, if count \<ge> K then ReturnDone False else CasSlot count))"
| "return_step K g ref (CasSlot count) =
     (if available_memories g count = 0
      then (g\<lparr>available_memories := (available_memories g)(count := ref)\<rparr>, CasCount count)
      else (g, LoadCountToPush))"
| "return_step K g ref (CasCount count) =
     (if available_memories_count g = count
      then (g\<lparr>available_memories_count := count + 1\<rparr>, ReturnDone True)
      else (g, ClearSlot count))"
| "return_step K g ref (ClearSlot count) =
     (g\<lparr>available_memories := (available_memories g)(count := 0)\<rparr>, LoadCountToPush)"
| "return_step K g ref (ReturnDone b) = (g, ReturnDone b)"

text \<open>
  The loop of \<open>CreateTrackerForCurrentThread\<close> that pops a reference, one atomic access per
  step. \<open>while_test\<close> is the test \<open>count > 0\<close> on the local; \<open>CreateDone None\<close> leaves the loop
  with \<open>count == 0\<close> (a new block is allocated), \<open>CreateDone (Some ref)\<close> took \<open>ref\<close> from the
  list.
\<close>

datatype create_pc =
    LoadCountToPop
  | ExchangeSlot int
  | CasCountDown int Reference
  | RestoreSlot int Reference int
  | CreateDone "Reference option"

definition while_test :: "int \<Rightarrow> create_pc" where
  "while_test count = (if count > 0 then ExchangeSlot count else CreateDone None)"

fun create_step :: "GlobalActivityTracker \<Rightarrow> create_pc \<Rightarrow> GlobalActivityTracker \<times> create_pc" where
  "create_step g LoadCountToPop = (g, while_test (available_memories_count g))"
| "create_step g (ExchangeSlot count) =
     (let mem_reference = available_memories g (count - 1)
      in (g\<lparr>available_memories := (available_memories g)(count - 1 := 0)\<rparr>,
          if mem_reference = 0 then LoadCountToPop else CasCountDown count mem_reference))"
| "create_step g (CasCountDown count mem_reference) =
     (if available_memories_count g = count
      then (g\<lparr>available_memories_count := count - 1\<rparr>, CreateDone (Some mem_reference))
      else (g, RestoreSlot count mem_reference (available_memories_count g)))"
| "create_step g (RestoreSlot count mem_reference oldcount) =
     (g\<lparr>available_memories := (available_memories g)(count - 1 := mem_reference)\<rparr>,
      while_test oldcount)"
| "create_step g (CreateDone r) = (g, CreateDone r)"

text \<open>Threads that run one of the two loops, and a schedule that picks the thread to step.\<close>

datatype thread = Returning Reference return_pc | Creating create_pc

fun thread_step :: "int \<Rightarrow> GlobalActivityTracker \<Rightarrow> thread \<Rightarrow> GlobalActivityTracker \<times> thread" where
  "thread_step K g (Returning ref p) =
     (case return_step K g ref p of (g', p') \<Rightarrow> (g', Returning ref p'))"
| "thread_step K g (Creating p) =
     (case create_step g p of (g', p') \<Rightarrow> (g', Creating p'))"

fun schedule_step ::
  "int \<Rightarrow> GlobalActivityTracker \<times> thread list \<Rightarrow> nat \<Rightarrow> GlobalActivityTracker \<times> thread list" where
  "schedule_step K (g, ths) i =
     (if i < length ths
      then (case thread_step K g (ths ! i) of (g', th') \<Rightarrow> (g', ths[i := th']))
      else (g, ths))"

definition run_threads ::
  "int \<Rightarrow> nat list \<Rightarrow> GlobalActivityTracker \<times> thread list \<Rightarrow> GlobalActivityTracker \<times> thread list" where
  "run_threads K sched s = foldl (schedule_step K) s sched"

text \<open>
  A pusher between its load of the count and its compare-exchange of the count holds a
  \<open>count\<close> that passed the test \<open>count < kMaxThreadCount\<close>.
\<close>

fun pending_below :: "int \<Rightarrow> thread \<Rightarrow> bool" where
  "pending_below K (Returning ref (CasSlot count)) = (count < K)"
| "pending_below K (Returning ref (CasCount count)) = (count < K)"
| "pending_below K (Returning ref (ClearSlot count)) = True"
| "pending_below K (Returning ref LoadCountToPush) = True"
| "pending_below K (Returning ref (ReturnDone b)) = True"
| "pending_below K (Creating p) = True"

text \<open>
  \<open>ReturnTrackerMemory\<close> run by one thread on its own: the \<open>memset\<close>, the decrement of the
  tracker count, then either the change of the type tag and the push loop, run until it
  leaves the loop, or \<open>delete[]\<close> of the heap block. The loop has no bound in the code; a
  run that never leaves it is the value \<open>None\<close>.
\<close>

record ManagedActivityTracker =
  mem_reference :: Reference
  mem_base :: "64 word"

partial_function (option) push_loop ::
  "int \<Rightarrow> GlobalActivityTracker \<Rightarrow> Reference \<Rightarrow> return_pc \<Rightarrow> GlobalActivityTracker option" where
  "push_loop K g ref p =
     (case p of
        ReturnDone b \<Rightarrow> Some g
      | _ \<Rightarrow> (case return_step K g ref p of (g', p') \<Rightarrow> push_loop K g' ref p'))"

definition ReturnTrackerMemory ::
  "int \<Rightarrow> GlobalActivityTracker \<Rightarrow> ManagedActivityTracker \<Rightarrow> GlobalActivityTracker option" where
  "ReturnTrackerMemory K g tracker =
     (let ref = mem_reference tracker;
          base = mem_base tracker;
          g1 = g\<lparr>memory_blocks := memset_block (stack_depth g) base (memory_blocks g)\<rparr>;
          g2 = g1\<lparr>thread_tracker_count := thread_tracker_count g1 - 1\<rparr>
      in if ref \<noteq> 0
         then push_loop K
                (fst (ChangeType g2 ref kTypeIdActivityTrackerFree kTypeIdActivityTracker))
                ref LoadCountToPush
         else Some (g2\<lparr>memory_blocks := (memory_blocks g2)(base := None)\<rparr>))"

text \<open>
  Example: a free list that holds the reference 0x10, and four threads: three return the
  blocks 0xE0, 0xA0 and 0xF0, one creates a tracker. All four start at the top of their
  loops. The schedule names the thread that takes the next step.
\<close>

definition example_global :: GlobalActivityTracker where
  "example_global =
     \<lparr>memory_blocks = (\<lambda>_. None), block_types = (\<lambda>_. OtherTypeId), stack_depth = 2,
      thread_tracker_count = 4,
      available_memories = (\<lambda>i. if i = 0 then 0x10 else 0),
      available_memories_count = 1\<rparr>"

definition example_threads :: "thread list" where
  "example_threads =
     [Returning 0xE0 LoadCountToPush, Returning 0xA0 LoadCountToPush,
      Returning 0xF0 LoadCountToPush, Creating LoadCountToPop]"

definition lost_reference_schedule :: "nat list" where
  "lost_reference_schedule =
     [0, 1, 1, 1, 3, 3, 0, 2, 2, 2, 3, 3, 0, 0, 3, 3, 0, 0, 0]"

text \<open>The bound on the count, together with what the pushers in flight hold.\<close>

definition count_bounded :: "int \<Rightarrow> GlobalActivityTracker \<times> thread list \<Rightarrow> bool" where
  "count_bounded K s = (available_memories_count (fst s) \<le> K \<and> list_all (pending_below K) (snd s))"

text \<open>A global tracker with one live block, the region of \<open>tracker_with_A\<close>.\<close>

definition live_global :: GlobalActivityTracker where
  "live_global =
     \<lparr>memory_blocks = (\<lambda>a. if a = 0x7000 then Some (hdr tracker_with_A, stack tracker_with_A)
                             else None),
      block_types = (\<lambda>r. if r = 0xA0 then kTypeIdActivityTracker else OtherTypeId),
      stack_depth = 2,
      thread_tracker_count = 1,
      available_memories = (\<lambda>_. 0),
      available_memories_count = 0\<rparr>"


section \<open>Properties of the writer operations\<close>

lemma ChangeActivity_hdr [simp]: "hdr (ChangeActivity t ty d) = hdr t"
  by (simp add: ChangeActivity_def Let_def)

lemma ChangeActivity_members [simp]:
  "stack_slots_member (ChangeActivity t ty d) = stack_slots_member t"
  "valid_member (ChangeActivity t ty d) = valid_member t"
  by (simp_all add: ChangeActivity_def Let_def)





text \<open>
  Claim C4. Under the precondition the code asserts (\<open>DCHECK_EQ\<close> on the category bits of the
  top record and of the new type), \<open>ChangeActivity\<close> keeps the category bits of every record;
  a type other than \<open>ACT_NULL\<close> replaces the type of the top record; \<open>ACT_NULL\<close> leaves every
  type as it was; the null-payload sentinel leaves every payload as it was; and with
  \<open>current_depth > stack_slots\<close> no record memory changes at all.
\<close>

theorem ChangeActivity_category:
  assumes dcheck:
    "ty \<noteq> ACT_NULL \<longrightarrow> current_depth (hdr t) \<le> stack_slots_member t \<longrightarrow>
       activity_type (stack t (unat (current_depth (hdr t) - 1))) AND ACT_CATEGORY_MASK
         = ty AND ACT_CATEGORY_MASK"
  shows
    "(\<forall>i. activity_type (stack (ChangeActivity t ty d) i) AND ACT_CATEGORY_MASK
          = activity_type (stack t i) AND ACT_CATEGORY_MASK) \<and>
     (ty \<noteq> ACT_NULL \<longrightarrow> current_depth (hdr t) \<le> stack_slots_member t \<longrightarrow>
        activity_type (stack (ChangeActivity t ty d) (unat (current_depth (hdr t) - 1))) = ty) \<and>
     (ty = ACT_NULL \<longrightarrow>
        (\<forall>i. activity_type (stack (ChangeActivity t ty d) i) = activity_type (stack t i))) \<and>
     (d = kNullActivityData \<longrightarrow>
        (\<forall>i. data (stack (ChangeActivity t ty d) i) = data (stack t i))) \<and>
     (stack_slots_member t < current_depth (hdr t) \<longrightarrow>
        stack (ChangeActivity t ty d) = stack t)"
  using dcheck by (auto simp add: ChangeActivity_def Let_def)

lemma PushActivity_overflow:
  "stack_slots_member t \<le> current_depth (hdr t) \<Longrightarrow>
   PushActivity t now origin ty d = t\<lparr>hdr := (hdr t)\<lparr>current_depth := current_depth (hdr t) + 1\<rparr>\<rparr>"
  by (simp add: PushActivity_def)


lemma same_identity_fields:
  "same_identity h h' \<Longrightarrow>
     cookie h = cookie h' \<and> Header.process_id h = Header.process_id h' \<and>
     thread_ref h = thread_ref h' \<and> start_time h = start_time h' \<and>
     start_ticks h = start_ticks h' \<and> stack_slots h = stack_slots h' \<and>
     Header.thread_name h = Header.thread_name h'"
  unfolding same_identity_def
  by (cases h, cases h') simp

lemma same_identity_upd [simp]:
  "same_identity (h\<lparr>current_depth := x\<rparr>) h' = same_identity h h'"
  "same_identity (h\<lparr>stack_unchanged := y\<rparr>) h' = same_identity h h'"
  "same_identity (h\<lparr>current_depth := x, stack_unchanged := y\<rparr>) h' = same_identity h h'"
  by (simp_all add: same_identity_def)

lemma same_identity_refl [simp]: "same_identity h h"
  by (simp add: same_identity_def)

lemma IsValid_same_identity:
  "same_identity (hdr t) (hdr t0) \<Longrightarrow> stack_slots_member t = stack_slots_member t0 \<Longrightarrow>
   valid_member t = valid_member t0 \<Longrightarrow> IsValid t = IsValid t0"
  by (drule same_identity_fields) (simp add: IsValid_def)

lemma to_wall_same_identity:
  "same_identity h h' \<Longrightarrow> to_wall_time tp h = to_wall_time tp h'"
  by (drule same_identity_fields) (simp add: to_wall_time_def fun_eq_iff)

lemma name_same_identity:
  "same_identity h h' \<Longrightarrow> snapshot_thread_name h = snapshot_thread_name h'"
  by (drule same_identity_fields) (simp add: snapshot_thread_name_def)

lemma IsValid_flag [simp]:
  "IsValid (t\<lparr>hdr := (hdr t)\<lparr>stack_unchanged := x\<rparr>\<rparr>) = IsValid t"
  by (simp add: IsValid_def)

lemma flag_irrelevant:
  "snapshot_thread_name (h\<lparr>stack_unchanged := x\<rparr>) = snapshot_thread_name h"
  "to_wall_time tp (h\<lparr>stack_unchanged := x\<rparr>) = to_wall_time tp h"
  by (simp_all add: snapshot_thread_name_def to_wall_time_def fun_eq_iff)

lemma snapshot_attempts_sequential:
  assumes "IsValid t"
  shows "snapshot_attempts tp (Suc n) t out =
     (True,
      \<lparr>activity_stack = map (to_wall_time tp (hdr t))
          (map (stack t) [0..<unat (min (current_depth (hdr t)) (stack_slots_member t))]),
       activity_stack_depth = current_depth (hdr t),
       thread_name = snapshot_thread_name (hdr t),
       thread_id = thread_ref (hdr t),
       process_id = Header.process_id (hdr t)\<rparr>,
      t\<lparr>hdr := (hdr t)\<lparr>stack_unchanged := 1\<rparr>\<rparr>)"
  using assms by (cases out) (simp add: Let_def flag_irrelevant)

lemma Snapshot_sequential:
  assumes "IsValid t"
  shows "Snapshot tp t out =
     (True,
      \<lparr>activity_stack = map (to_wall_time tp (hdr t))
          (map (stack t) [0..<unat (min (current_depth (hdr t)) (stack_slots_member t))]),
       activity_stack_depth = current_depth (hdr t),
       thread_name = snapshot_thread_name (hdr t),
       thread_id = thread_ref (hdr t),
       process_id = Header.process_id (hdr t)\<rparr>,
      t\<lparr>hdr := (hdr t)\<lparr>stack_unchanged := 1\<rparr>\<rparr>)"
proof -
  have k: "kMaxAttempts = Suc 9" by (simp add: kMaxAttempts_def)
  show ?thesis
    unfolding Snapshot_def k using assms
    by (simp only: snapshot_attempts_sequential [OF assms] if_False not_True_eq_False simp_thms)
qed


lemma unat_depth_plus_one:
  fixes d :: "32 word"
  assumes "unat d + 1 < 2 ^ 32"
  shows "unat (d + 1) = unat d + 1"
  using assms by (simp add: unat_word_ariths)

lemma blank_record_eq:
  "call_stack a = (\<lambda>_. 0) \<Longrightarrow>
   a\<lparr>time_internal := now, origin_address := origin, activity_type := ty, data := v\<rparr>
     = naive_record now origin ty v"
  by (cases a) (simp add: naive_record_def)

lemma mirrors_Push:
  assumes m: "mirrors t0 t st" and b: "length st + 1 < 2 ^ 32"
  shows "mirrors t0 (PushActivity t now origin ty d) (st @ [naive_record now origin ty (deref d)])"
proof -
  from m have len: "unat (current_depth (hdr t)) = length st"
    and cs: "\<And>i. call_stack (stack t i) = (\<lambda>_. 0)"
    and sl: "\<And>i. i < length st \<Longrightarrow> i < unat (stack_slots_member t) \<Longrightarrow> stack t i = st ! i"
    by (simp_all add: mirrors_def)
  have suc: "unat (current_depth (hdr t) + 1) = length st + 1"
    using unat_depth_plus_one [of "current_depth (hdr t)"] b len by simp
  show ?thesis
  proof (cases "stack_slots_member t \<le> current_depth (hdr t)")
    case True
    then have "unat (stack_slots_member t) \<le> length st"
      using len by (simp add: word_le_nat_alt)
    then show ?thesis
      using m True suc by (simp add: mirrors_def PushActivity_def nth_append)
  next
    case False
    then have lt: "length st < unat (stack_slots_member t)"
      using len by (simp add: word_le_nat_alt)
    have new: "(stack t (length st))\<lparr>time_internal := now, origin_address := origin,
                 activity_type := ty, data := deref d\<rparr> = naive_record now origin ty (deref d)"
      by (rule blank_record_eq) (rule cs)
    show ?thesis
      using m False suc len new
      by (auto simp add: mirrors_def PushActivity_def nth_append naive_record_def)
  qed
qed

lemma mirrors_Pop:
  assumes m: "mirrors t0 t st" and ne: "st \<noteq> []"
  shows "mirrors t0 (PopActivity t) (butlast st)"
proof -
  from m have len: "unat (current_depth (hdr t)) = length st"
    by (simp add: mirrors_def)
  with ne have "current_depth (hdr t) \<noteq> 0"
    by (auto simp add: unat_eq_0)
  then have "unat (current_depth (hdr t) - 1) = length st - 1"
    using len by (simp add: unat_minus_one)
  then show ?thesis
    using m by (simp add: mirrors_def PopActivity_def nth_butlast)
qed

lemma ChangeActivity_recorded:
  "current_depth (hdr t) \<le> stack_slots_member t \<Longrightarrow>
   ChangeActivity t ty d =
     t\<lparr>stack := (stack t)(unat (current_depth (hdr t) - 1) :=
           change_record ty d (stack t (unat (current_depth (hdr t) - 1))))\<rparr>"
  by (simp add: ChangeActivity_def Let_def change_record_def)

lemma ChangeActivity_unrecorded:
  "\<not> current_depth (hdr t) \<le> stack_slots_member t \<Longrightarrow> ChangeActivity t ty d = t"
  by (simp add: ChangeActivity_def)

lemma naive_Change:
  "st \<noteq> [] \<Longrightarrow> naive_op st (Change ty d) = butlast st @ [change_record ty d (last st)]"
  by simp

lemma call_stack_change_record [simp]:
  "call_stack (change_record ty d a) = call_stack a"
  by (simp add: change_record_def)

lemma mirrors_Change:
  assumes m: "mirrors t0 t st" and ne: "st \<noteq> []"
  shows "mirrors t0 (ChangeActivity t ty d) (naive_op st (Change ty d))"
proof -
  from m have len: "unat (current_depth (hdr t)) = length st"
    and sl: "\<And>i. i < length st \<Longrightarrow> i < unat (stack_slots_member t) \<Longrightarrow> stack t i = st ! i"
    and cs: "\<And>i. call_stack (stack t i) = (\<lambda>_. 0)"
    by (simp_all add: mirrors_def)
  with ne have "current_depth (hdr t) \<noteq> 0"
    by (auto simp add: unat_eq_0)
  then have idx: "unat (current_depth (hdr t) - 1) = length st - 1"
    using len by (simp add: unat_minus_one)
  have pos: "0 < length st" using ne by simp
  show ?thesis
  proof (cases "current_depth (hdr t) \<le> stack_slots_member t")
    case True
    then have le: "length st \<le> unat (stack_slots_member t)"
      using len by (simp add: word_le_nat_alt)
    have "length st - 1 < length st" "length st - 1 < unat (stack_slots_member t)"
      using pos le by arith+
    then have "stack t (length st - 1) = st ! (length st - 1)"
      by (rule sl)
    then have top: "stack t (length st - 1) = last st"
      using ne by (simp add: last_conv_nth)
    have slots: "((stack t)(length st - 1 := change_record ty d (last st))) i
                   = (butlast st @ [change_record ty d (last st)]) ! i"
      if "i < length st" "i < unat (stack_slots_member t)" for i
    proof (cases "i = length st - 1")
      case True
      then show ?thesis by (simp add: nth_append)
    next
      case False
      with that have "i < length st - 1" by arith
      then show ?thesis
        using sl [OF that] False by (simp add: nth_append nth_butlast)
    qed
    let ?t' = "t\<lparr>stack := (stack t)(length st - 1 := change_record ty d (last st))\<rparr>"
    let ?st' = "butlast st @ [change_record ty d (last st)]"
    have l': "length ?st' = length st"
      using pos by simp
    have c1: "unat (current_depth (hdr ?t')) = length ?st'"
      using len l' by simp
    have c2: "\<forall>i. i < length ?st' \<longrightarrow> i < unat (stack_slots_member ?t') \<longrightarrow>
                stack ?t' i = ?st' ! i"
      unfolding l' using slots by simp
    have "call_stack (last st) = (\<lambda>_. 0)"
      using cs [of "length st - 1"] top by simp
    then have c3: "\<forall>i. call_stack (stack ?t' i) = (\<lambda>_. 0)"
      using cs by simp
    have "mirrors t0 ?t' ?st'"
      unfolding mirrors_def using c1 c2 c3 m by (simp add: mirrors_def)
    then show ?thesis
      unfolding naive_Change [OF ne] ChangeActivity_recorded [OF True] idx top .
  next
    case False
    then have gt: "unat (stack_slots_member t) < length st"
      using len by (simp add: word_le_nat_alt)
    let ?st' = "butlast st @ [change_record ty d (last st)]"
    have l': "length ?st' = length st"
      using pos by simp
    have same: "?st' ! i = st ! i" if "i < unat (stack_slots_member t)" for i
      using that gt by (simp add: nth_append nth_butlast)
    have c2: "\<forall>i. i < length ?st' \<longrightarrow> i < unat (stack_slots_member t) \<longrightarrow>
                stack t i = ?st' ! i"
      unfolding l' using sl same by simp
    have "mirrors t0 t ?st'"
      unfolding mirrors_def using c2 len l' m by (simp add: mirrors_def)
    then show ?thesis
      unfolding naive_Change [OF ne] ChangeActivity_unrecorded [OF False] .
  qed
qed

lemma mirrors_op:
  "mirrors t0 t st \<Longrightarrow> op_allowed st x \<Longrightarrow> mirrors t0 (apply_op t x) (naive_op st x)"
  by (cases x) (simp_all add: mirrors_Push mirrors_Pop mirrors_Change del: naive_op.simps(2))

lemma mirrors_flag:
  "mirrors t0 t st \<Longrightarrow> mirrors t0 (t\<lparr>hdr := (hdr t)\<lparr>stack_unchanged := x\<rparr>\<rparr>) st"
  by (simp add: mirrors_def)

lemma mirrors_bound:
  "mirrors t0 t st \<Longrightarrow> length st < 2 ^ 32"
  using unsigned_less [of "current_depth (hdr t)", where ?'a = nat]
  by (simp add: mirrors_def)

lemma mirrors_Snapshot:
  assumes m: "mirrors t0 t st" and v: "IsValid t0"
  shows "Snapshot tp t out =
           (True, naive_snapshot tp (hdr t0) (unat (stack_slots_member t0)) st,
            t\<lparr>hdr := (hdr t)\<lparr>stack_unchanged := 1\<rparr>\<rparr>)"
proof -
  from m have len: "unat (current_depth (hdr t)) = length st"
    and sl: "\<And>i. i < length st \<Longrightarrow> i < unat (stack_slots_member t) \<Longrightarrow> stack t i = st ! i"
    and id: "same_identity (hdr t) (hdr t0)"
    and mem: "stack_slots_member t = stack_slots_member t0" "valid_member t = valid_member t0"
    by (simp_all add: mirrors_def)
  have valid: "IsValid t"
    using IsValid_same_identity [OF id mem] v by simp
  have depth: "current_depth (hdr t) = of_nat (length st)"
    using len by (metis of_nat_unat ucast_id)
  have cnt: "unat (min (current_depth (hdr t)) (stack_slots_member t))
               = min (length st) (unat (stack_slots_member t0))"
    using len mem by (simp add: min_def word_le_nat_alt)
  have copy: "map (stack t) [0..<min (length st) (unat (stack_slots_member t0))]
                = take (min (length st) (unat (stack_slots_member t0))) st"
    using sl mem by (auto intro!: nth_equalityI)
  show ?thesis
    using same_identity_fields [OF id]
    by (simp add: Snapshot_sequential [OF valid] naive_snapshot_def cnt copy depth [symmetric]
          to_wall_same_identity [OF id] name_same_identity [OF id])
qed

lemma snapshots_mirror_naive_stack:
  assumes "IsValid t0" and "mirrors t0 t st" and "ops_allowed st ops"
  shows "snapshots_after_each tp out0 t ops =
           map (\<lambda>st'. (True, naive_snapshot tp (hdr t0) (unat (stack_slots_member t0)) st'))
               (naive_states st ops)"
  using assms(2,3)
proof (induction ops arbitrary: t st)
  case Nil
  then show ?case by simp
next
  case (Cons x xs)
  from Cons.prems have ok: "op_allowed st x" and rest: "ops_allowed (naive_op st x) xs"
    by simp_all
  have m1: "mirrors t0 (apply_op t x) (naive_op st x)"
    using mirrors_op [OF Cons.prems(1) ok] .
  have m2: "mirrors t0 ((apply_op t x)\<lparr>hdr := (hdr (apply_op t x))\<lparr>stack_unchanged := 1\<rparr>\<rparr>)
              (naive_op st x)"
    using mirrors_flag [OF m1] .
  show ?case
    using Cons.IH [OF m2 rest] mirrors_Snapshot [OF m1 assms(1)]
    by (simp del: naive_op.simps apply_op.simps)
qed

lemma mirrors_at_birth:
  "current_depth (hdr t0) = 0 \<Longrightarrow> \<forall>i. call_stack (stack t0 i) = (\<lambda>_. 0) \<Longrightarrow> mirrors t0 t0 []"
  by (simp add: mirrors_def)

text \<open>
  The tracker that the constructor initialises on a zeroed region is valid, has depth 0 and
  no call stack written, whenever the platform gives non-zero ids and clocks.
\<close>

lemma initialise_valid:
  assumes "current_thread_ref p \<noteq> 0" and "time_now p \<noteq> 0" and "ticks_now p \<noteq> 0"
    and "current_proc_id p \<noteq> 0"
  shows "IsValid (initialise p \<lparr>hdr = zero_header, stack = (\<lambda>_. zero_activity),
                               stack_slots_member = n, valid_member = False\<rparr>)"
  using assms
  by (simp add: IsValid_def initialise_def zero_header_def strlcpy_def Let_def)

lemma initialise_empty:
  "current_depth (hdr (initialise p \<lparr>hdr = zero_header, stack = (\<lambda>_. zero_activity),
                               stack_slots_member = n, valid_member = False\<rparr>)) = 0 \<and>
   (\<forall>i. call_stack (stack (initialise p \<lparr>hdr = zero_header, stack = (\<lambda>_. zero_activity),
                               stack_slots_member = n, valid_member = False\<rparr>) i) = (\<lambda>_. 0))"
  by (simp add: initialise_def zero_header_def zero_activity_def)

text \<open>
  Claim C1, amended. Take a valid tracker at depth 0 on which no call stack was written (a
  tracker fresh from the constructor), and any sequence of operations that respects the
  writer's contract and keeps the depth below \<open>2 ^ 32\<close>. The snapshot taken after each
  operation succeeds and is the snapshot of the naive stack: its first
  \<open>min depth stack_slots\<close> records in push order, time stamps in wall time, and the full
  depth.
\<close>

theorem Snapshot_matches_naive_model:
  assumes "IsValid t0"
    and "current_depth (hdr t0) = 0"
    and "\<forall>i. call_stack (stack t0 i) = (\<lambda>_. 0)"
    and "ops_allowed [] ops"
  shows "snapshots_after_each tp out0 t0 ops =
           map (\<lambda>st. (True, naive_snapshot tp (hdr t0) (unat (stack_slots_member t0)) st))
               (naive_states [] ops)"
  using snapshots_mirror_naive_stack [OF assms(1) mirrors_at_birth [OF assms(2,3)] assms(4)] .

section \<open>Overflow of the stack and of the depth counter\<close>

lemma unat_plus_of_nat:
  fixes d :: "32 word"
  assumes "unat d + k < 2 ^ 32"
  shows "unat (d + of_nat k) = unat d + k"
proof -
  have "k < 2 ^ 32" using assms by simp
  then have "unat (of_nat k :: 32 word) = k"
    by (simp add: unat_of_nat)
  then show ?thesis
    using assms by (simp add: unat_word_ariths)
qed

lemma overflow_pushes:
  assumes "list_all is_push ps"
    and "stack_slots_member t \<le> current_depth (hdr t)"
    and "unat (current_depth (hdr t)) + length ps \<le> 2 ^ 32"
  shows "foldl apply_op t ps =
           t\<lparr>hdr := (hdr t)\<lparr>current_depth := current_depth (hdr t) + of_nat (length ps)\<rparr>\<rparr>"
  using assms
proof (induction ps rule: rev_induct)
  case Nil
  then show ?case by simp
next
  case (snoc x xs)
  from snoc.prems have px: "is_push x" and pxs: "list_all is_push xs"
    and b: "unat (current_depth (hdr t)) + length xs < 2 ^ 32"
    by simp_all
  let ?t = "t\<lparr>hdr := (hdr t)\<lparr>current_depth := current_depth (hdr t) + of_nat (length xs)\<rparr>\<rparr>"
  have ih: "foldl apply_op t xs = ?t"
    using snoc.IH [OF pxs snoc.prems(2)] b by simp
  have "unat (current_depth (hdr t) + of_nat (length xs))
          = unat (current_depth (hdr t)) + length xs"
    using b by (rule unat_plus_of_nat)
  then have over: "stack_slots_member ?t \<le> current_depth (hdr ?t)"
    using snoc.prems(2) by (simp add: word_le_nat_alt)
  obtain now origin ty d where x: "x = Push now origin ty d"
    using px by (cases x) simp_all
  show ?case
    using over by (simp add: ih x PushActivity_def add.assoc)
qed

lemma pops:
  "foldl apply_op t (replicate (Suc k) Pop) =
     t\<lparr>hdr := (hdr t)\<lparr>current_depth := current_depth (hdr t) - of_nat (Suc k),
                      stack_unchanged := 0\<rparr>\<rparr>"
proof (induction k)
  case 0
  then show ?case by (simp add: PopActivity_def)
next
  case (Suc k)
  have "replicate (Suc (Suc k)) Pop = replicate (Suc k) Pop @ [Pop]"
    by (simp add: replicate_append_same)
  then show ?case
    using Suc by (simp add: PopActivity_def diff_diff_eq del: replicate_Suc replicate.simps)
qed

lemma pops_stack:
  "stack (foldl apply_op t (replicate k Pop)) = stack t \<and>
   current_depth (hdr (foldl apply_op t (replicate k Pop))) = current_depth (hdr t) - of_nat k"
proof (cases k)
  case 0
  then show ?thesis by simp
next
  case (Suc n)
  then show ?thesis by (simp only: pops) simp
qed

lemma filling_pushes:
  assumes "list_all is_push ps"
    and "unat (current_depth (hdr t)) + length ps \<le> unat (stack_slots_member t)"
  shows "current_depth (hdr (foldl apply_op t ps)) = current_depth (hdr t) + of_nat (length ps) \<and>
         stack_slots_member (foldl apply_op t ps) = stack_slots_member t \<and>
         (\<forall>i. unat (stack_slots_member t) \<le> i \<longrightarrow> stack (foldl apply_op t ps) i = stack t i)"
  using assms
proof (induction ps rule: rev_induct)
  case Nil
  then show ?case by simp
next
  case (snoc x xs)
  from snoc.prems have px: "is_push x" and pxs: "list_all is_push xs"
    and b: "unat (current_depth (hdr t)) + length xs < unat (stack_slots_member t)"
    by simp_all
  let ?t = "foldl apply_op t xs"
  have ih: "current_depth (hdr ?t) = current_depth (hdr t) + of_nat (length xs)"
    "stack_slots_member ?t = stack_slots_member t"
    "\<And>i. unat (stack_slots_member t) \<le> i \<Longrightarrow> stack ?t i = stack t i"
    using snoc.IH [OF pxs] b by simp_all
  have "unat (stack_slots_member t) < 2 ^ 32"
    using unsigned_less [of "stack_slots_member t", where ?'a = nat] by simp
  with b have "unat (current_depth (hdr t)) + length xs < 2 ^ 32" by arith
  then have u: "unat (current_depth (hdr ?t)) = unat (current_depth (hdr t)) + length xs"
    unfolding ih by (rule unat_plus_of_nat)
  with b have below: "\<not> stack_slots_member ?t \<le> current_depth (hdr ?t)"
    by (simp add: ih(2) word_le_nat_alt)
  obtain now origin ty d where x: "x = Push now origin ty d"
    using px by (cases x) simp_all
  show ?case
    using below u b ih by (auto simp add: x PushActivity_def Let_def add.assoc)
qed

lemma IsValid_fresh_tracker: "IsValid fresh_tracker"
  by (simp add: IsValid_def fresh_tracker_def initialise_def example_platform_def zero_header_def
      strlcpy_def Let_def)

lemma pushes_leave_upper_slots:
  assumes "list_all is_push ps"
    and "current_depth (hdr t) = 0"
    and "length ps \<le> 2 ^ 32"
  shows "\<forall>i. unat (stack_slots_member t) \<le> i \<longrightarrow> stack (foldl apply_op t ps) i = stack t i"
proof (cases "length ps \<le> unat (stack_slots_member t)")
  case True
  then show ?thesis
    using filling_pushes [OF assms(1), of t] assms(2) by simp
next
  case False
  let ?n = "unat (stack_slots_member t)"
  let ?t1 = "foldl apply_op t (take ?n ps)"
  have split: "foldl apply_op t ps = foldl apply_op ?t1 (drop ?n ps)"
    by (metis append_take_drop_id foldl_append)
  have p1: "list_all is_push (take ?n ps)" and p2: "list_all is_push (drop ?n ps)"
    using assms(1) by (metis append_take_drop_id list_all_append)+
  have l1: "length (take ?n ps) = ?n"
    using False by simp
  have fill: "current_depth (hdr ?t1) = stack_slots_member t"
    "stack_slots_member ?t1 = stack_slots_member t"
    "\<And>i. ?n \<le> i \<Longrightarrow> stack ?t1 i = stack t i"
    using filling_pushes [OF p1] assms(2) l1 by simp_all
  have "unat (current_depth (hdr ?t1)) + length (drop ?n ps) \<le> 2 ^ 32"
    using False assms(3) by (simp add: fill)
  then have "stack (foldl apply_op ?t1 (drop ?n ps)) = stack ?t1"
    using overflow_pushes [OF p2, of ?t1] fill by simp
  then show ?thesis
    using fill(3) by (simp add: split)
qed

text \<open>
  Claim C3, amended. A push at \<open>current_depth \<ge> stack_slots\<close> stores \<open>depth + 1\<close> and changes
  nothing else. Starting from depth 0 with \<open>N = stack_slots\<close> and \<open>N + k \<le> 2 ^ 32\<close>: after
  \<open>N + k\<close> pushes and \<open>k\<close> pops the depth is \<open>N\<close> and every record (the top one at index
  \<open>N - 1\<close> among them) is the record that was there after the first \<open>N\<close> pushes; and at every
  moment of the run the slots at indices \<open>\<ge> N\<close> are as they were before it.
\<close>

theorem overflow_push_touches_no_record:
  assumes "list_all is_push pushes"
    and "current_depth (hdr t) = 0"
    and "length pushes = unat (stack_slots_member t) + k"
    and "unat (stack_slots_member t) + k \<le> 2 ^ 32"
  shows "(\<forall>t' now origin ty d.
            stack_slots_member t' \<le> current_depth (hdr t') \<longrightarrow>
            PushActivity t' now origin ty d
              = t'\<lparr>hdr := (hdr t')\<lparr>current_depth := current_depth (hdr t') + 1\<rparr>\<rparr>) \<and>
         current_depth (hdr (foldl apply_op t (pushes @ replicate k Pop)))
           = stack_slots_member t \<and>
         stack (foldl apply_op t (pushes @ replicate k Pop))
           = stack (foldl apply_op t (take (unat (stack_slots_member t)) pushes)) \<and>
         (\<forall>n i. unat (stack_slots_member t) \<le> i \<longrightarrow>
            stack (foldl apply_op t (take n (pushes @ replicate k Pop))) i = stack t i)"
proof -
  let ?n = "unat (stack_slots_member t)"
  let ?t1 = "foldl apply_op t (take ?n pushes)"
  let ?t2 = "foldl apply_op ?t1 (drop ?n pushes)"
  have split: "foldl apply_op t pushes = ?t2"
    by (metis append_take_drop_id foldl_append)
  have p1: "list_all is_push (take ?n pushes)" and p2: "list_all is_push (drop ?n pushes)"
    using assms(1) by (metis append_take_drop_id list_all_append)+
  have l1: "length (take ?n pushes) = ?n" and l2: "length (drop ?n pushes) = k"
    using assms(3) by simp_all
  have fill: "current_depth (hdr ?t1) = stack_slots_member t"
    "stack_slots_member ?t1 = stack_slots_member t"
    using filling_pushes [OF p1] assms(2) l1 by simp_all
  have over: "?t2 = ?t1\<lparr>hdr := (hdr ?t1)\<lparr>current_depth := current_depth (hdr ?t1) + of_nat k\<rparr>\<rparr>"
    using overflow_pushes [OF p2, of ?t1] fill assms(4) l2 by simp
  have after: "stack (foldl apply_op t (pushes @ replicate k Pop)) = stack ?t1"
    "current_depth (hdr (foldl apply_op t (pushes @ replicate k Pop))) = stack_slots_member t"
    using pops_stack [of ?t2 k] by (simp_all add: split) (simp_all add: over fill)
  have moment: "stack (foldl apply_op t (take n (pushes @ replicate k Pop))) i = stack t i"
    if "?n \<le> i" for n i
  proof -
    have pn: "list_all is_push (take n pushes)"
      using assms(1) by (metis append_take_drop_id list_all_append)
    have ln: "length (take n pushes) \<le> 2 ^ 32"
      using assms(3,4) by simp
    have "stack (foldl apply_op t (take n (pushes @ replicate k Pop)))
            = stack (foldl apply_op t (take n pushes))"
      using pops_stack [of "foldl apply_op t (take n pushes)" "min (n - length pushes) k"]
      by simp
    then show ?thesis
      using pushes_leave_upper_slots [OF pn assms(2) ln] that by simp
  qed
  show ?thesis
    using after moment by (simp add: PushActivity_def)
qed

text \<open>
  Witness for C3 (scenario S2 of the spec): two slots, pushes A, B, C, one pop.
\<close>

theorem overflow_push_touches_no_record_witness:
  "list_all is_push [activity_A, activity_B, activity_C] \<and>
   current_depth (hdr fresh_tracker) = 0 \<and>
   length [activity_A, activity_B, activity_C] = unat (stack_slots_member fresh_tracker) + 1 \<and>
   stack (foldl apply_op fresh_tracker [activity_A, activity_B, activity_C, Pop])
     = stack (foldl apply_op fresh_tracker [activity_A, activity_B]) \<and>
   current_depth (hdr (foldl apply_op fresh_tracker [activity_A, activity_B, activity_C, Pop])) = 2 \<and>
   data (stack (foldl apply_op fresh_tracker [activity_A, activity_B, activity_C, Pop]) 1) = 2"
proof -
  have a: "list_all is_push [activity_A, activity_B, activity_C]"
    by (simp add: activity_A_def activity_B_def activity_C_def)
  have b: "current_depth (hdr fresh_tracker) = 0"
    by (simp add: fresh_tracker_def initialise_def zero_header_def)
  have n: "stack_slots_member fresh_tracker = 2"
    by (simp add: fresh_tracker_def initialise_def)
  have c: "length [activity_A, activity_B, activity_C] = unat (stack_slots_member fresh_tracker) + 1"
    by (simp add: n)
  have d: "unat (stack_slots_member fresh_tracker) + 1 \<le> 2 ^ 32"
    by (simp add: n)
  have e: "data (stack (foldl apply_op fresh_tracker [activity_A, activity_B]) 1) = 2"
    by (simp add: activity_A_def activity_B_def PushActivity_def fresh_tracker_def initialise_def
        zero_header_def word_le_nat_alt)
  show ?thesis
    using overflow_push_touches_no_record [OF a b c d] a b c e by (simp add: n)
qed

lemma replicate_wrap: "replicate (2 ^ 32) x = x # x # replicate 4294967294 x"
proof -
  have "(2::nat) ^ 32 = Suc (Suc 4294967294)" by simp
  then show ?thesis by (simp only: replicate_Suc)
qed

lemma replicate_wrap_end: "replicate (2 ^ 32) x = replicate 4294967294 x @ [x, x]"
proof -
  have "(2::nat) ^ 32 = 4294967294 + Suc (Suc 0)" by simp
  then show ?thesis by (simp only: replicate_add replicate_Suc replicate_0)
qed

lemma two_pushes_fresh:
  "PushActivity (PushActivity fresh_tracker n1 o1 t1 d1) n2 o2 t2 d2 =
     fresh_tracker
       \<lparr>stack := (stack fresh_tracker)
          (0 := naive_record n1 o1 t1 (deref d1), Suc 0 := naive_record n2 o2 t2 (deref d2)),
        hdr := (hdr fresh_tracker)\<lparr>current_depth := 2\<rparr>\<rparr>"
  by (simp add: PushActivity_def fresh_tracker_def initialise_def zero_header_def
      zero_activity_def naive_record_def word_le_nat_alt)

lemma fresh_tracker_fields:
  "stack_slots_member fresh_tracker = 2"
  "current_depth (hdr fresh_tracker) = 0"
  by (simp_all add: fresh_tracker_def initialise_def zero_header_def)

lemma depth_wraps_after_pushes:
  "foldl apply_op fresh_tracker (replicate (2 ^ 32) (Push n1 o1 t1 d1)) =
     fresh_tracker
       \<lparr>stack := (stack fresh_tracker)
          (0 := naive_record n1 o1 t1 (deref d1), Suc 0 := naive_record n1 o1 t1 (deref d1)),
        hdr := (hdr fresh_tracker)\<lparr>current_depth := 0\<rparr>\<rparr>"
proof -
  define x where "x = Push n1 o1 t1 d1"
  define t2 where "t2 = fresh_tracker
       \<lparr>stack := (stack fresh_tracker)
          (0 := naive_record n1 o1 t1 (deref d1), Suc 0 := naive_record n1 o1 t1 (deref d1)),
        hdr := (hdr fresh_tracker)\<lparr>current_depth := 2\<rparr>\<rparr>"
  have e: "foldl apply_op fresh_tracker [x, x] = t2"
    by (simp add: x_def t2_def two_pushes_fresh)
  have a: "list_all is_push (replicate 4294967294 x)"
    by (simp add: list_all_length x_def)
  have d2: "current_depth (hdr t2) = 2" "stack_slots_member t2 = 2"
    by (simp_all add: t2_def fresh_tracker_fields)
  have b: "stack_slots_member t2 \<le> current_depth (hdr t2)"
    by (simp add: d2)
  have c: "unat (current_depth (hdr t2)) + length (replicate 4294967294 x) \<le> 2 ^ 32"
    by (simp add: d2)
  have "foldl apply_op fresh_tracker (replicate (2 ^ 32) x)
          = foldl apply_op (foldl apply_op fresh_tracker [x, x]) (replicate 4294967294 x)"
    by (simp only: replicate_wrap foldl_Cons foldl_Nil)
  also have "\<dots> = foldl apply_op t2 (replicate 4294967294 x)"
    by (simp only: e)
  also have "\<dots> = t2\<lparr>hdr := (hdr t2)\<lparr>current_depth := current_depth (hdr t2)
                       + of_nat (length (replicate 4294967294 x))\<rparr>\<rparr>"
    using overflow_pushes [OF a b c] .
  also have "\<dots> = fresh_tracker
       \<lparr>stack := (stack fresh_tracker)
          (0 := naive_record n1 o1 t1 (deref d1), Suc 0 := naive_record n1 o1 t1 (deref d1)),
        hdr := (hdr fresh_tracker)\<lparr>current_depth := 0\<rparr>\<rparr>"
    by (simp add: t2_def)
  finally show ?thesis
    unfolding x_def .
qed

lemma naive_pushes_length:
  "list_all is_push ps \<Longrightarrow> length (foldl naive_op st ps) = length st + length ps"
proof (induction ps arbitrary: st)
  case Nil
  then show ?case by simp
next
  case (Cons x xs)
  then obtain now origin ty d where "x = Push now origin ty d"
    by (cases x) simp_all
  with Cons show ?case by simp
qed

text \<open>
  Counterexample to C1 as stated: after \<open>2 ^ 32\<close> pushes on a tracker with two slots the
  32-bit depth has wrapped to 0; the snapshot succeeds with no record and depth 0, where the
  naive stack has \<open>2 ^ 32\<close> records and its snapshot holds two.
\<close>

theorem snapshot_depth_wraps_counterexample:
  "let t = foldl apply_op fresh_tracker (replicate (2 ^ 32) activity_A);
       st = foldl naive_op [] (replicate (2 ^ 32) activity_A);
       result = Snapshot (+) t blank_snapshot
   in fst result \<and>
      activity_stack (fst (snd result)) = [] \<and>
      activity_stack_depth (fst (snd result)) = 0 \<and>
      length st = 2 ^ 32 \<and>
      length (activity_stack (naive_snapshot (+) (hdr fresh_tracker) 2 st)) = 2 \<and>
      fst (snd result) \<noteq> naive_snapshot (+) (hdr fresh_tracker) 2 st"
proof -
  define t where "t = foldl apply_op fresh_tracker (replicate (2 ^ 32) activity_A)"
  define st where "st = foldl naive_op [] (replicate (2 ^ 32) activity_A)"
  have t_eq: "t = fresh_tracker
       \<lparr>stack := (stack fresh_tracker)
          (0 := naive_record 11 0x1000 (ACT_GENERIC OR 1) 1,
           Suc 0 := naive_record 11 0x1000 (ACT_GENERIC OR 1) 1),
        hdr := (hdr fresh_tracker)\<lparr>current_depth := 0\<rparr>\<rparr>"
    unfolding t_def activity_A_def depth_wraps_after_pushes by simp
  have t: "current_depth (hdr t) = 0" "stack_slots_member t = 2"
    by (simp_all add: t_eq fresh_tracker_fields)
  have "same_identity (hdr t) (hdr fresh_tracker)"
    by (simp add: t_eq)
  moreover have "valid_member t = valid_member fresh_tracker"
    by (simp add: t_eq)
  ultimately have v: "IsValid t"
    using IsValid_same_identity [of t fresh_tracker] IsValid_fresh_tracker t
    by (simp add: fresh_tracker_fields)
  have "list_all is_push (replicate (2 ^ 32) activity_A)"
    by (simp add: list_all_length activity_A_def)
  then have len: "length st = 2 ^ 32"
    unfolding st_def
    using naive_pushes_length [of "replicate (2 ^ 32) activity_A" "[]"] by simp
  have n: "length (activity_stack (naive_snapshot (+) (hdr fresh_tracker) 2 st)) = 2"
    by (simp add: naive_snapshot_def len)
  have s: "activity_stack (fst (snd (Snapshot (+) t blank_snapshot))) = []"
    "activity_stack_depth (fst (snd (Snapshot (+) t blank_snapshot))) = 0"
    "fst (Snapshot (+) t blank_snapshot)"
    by (simp_all add: Snapshot_sequential [OF v] t)
  have "fst (snd (Snapshot (+) t blank_snapshot)) \<noteq> naive_snapshot (+) (hdr fresh_tracker) 2 st"
    using n s(1) by (metis list.size(3) zero_neq_numeral)
  then show ?thesis
    unfolding Let_def t_def [symmetric] st_def [symmetric]
    using s len n by simp
qed

text \<open>
  Counterexample to C3 as stated: \<open>N = 2\<close>, \<open>k = 2 ^ 32\<close>. The depth wraps during the pushes,
  the last two pushes are recorded again, and after \<open>k\<close> pops the record at index \<open>N - 1\<close> is
  not the one that was there before the overflow pushes.
\<close>

theorem overflow_wraps_counterexample:
  "list_all is_push ([activity_A, activity_A] @ replicate (2 ^ 32) activity_B) \<and>
   current_depth (hdr fresh_tracker) = 0 \<and>
   length ([activity_A, activity_A] @ replicate (2 ^ 32) activity_B)
     = unat (stack_slots_member fresh_tracker) + 2 ^ 32 \<and>
   stack (foldl apply_op fresh_tracker
            (([activity_A, activity_A] @ replicate (2 ^ 32) activity_B) @ replicate (2 ^ 32) Pop))
         (unat (stack_slots_member fresh_tracker) - 1)
     \<noteq> stack (foldl apply_op fresh_tracker
            (take (unat (stack_slots_member fresh_tracker))
               ([activity_A, activity_A] @ replicate (2 ^ 32) activity_B)))
         (unat (stack_slots_member fresh_tracker) - 1)"
proof -
  define x where "x = activity_B"
  define pops where "pops = replicate (2 ^ 32) Pop"
  define t2 where "t2 = foldl apply_op fresh_tracker [activity_A, activity_A]"
  define t3 where "t3 = foldl apply_op t2 (replicate 4294967294 x)"
  define t4 where "t4 = foldl apply_op t3 [x, x]"
  have t2_eq: "t2 = fresh_tracker
       \<lparr>stack := (stack fresh_tracker)
          (0 := naive_record 11 0x1000 (ACT_GENERIC OR 1) 1,
           Suc 0 := naive_record 11 0x1000 (ACT_GENERIC OR 1) 1),
        hdr := (hdr fresh_tracker)\<lparr>current_depth := 2\<rparr>\<rparr>"
    by (simp add: t2_def activity_A_def two_pushes_fresh)
  have a: "list_all is_push (replicate 4294967294 x)"
    by (simp add: list_all_length x_def activity_B_def)
  have d2: "current_depth (hdr t2) = 2" "stack_slots_member t2 = 2"
    by (simp_all add: t2_eq fresh_tracker_fields)
  have b: "stack_slots_member t2 \<le> current_depth (hdr t2)"
    by (simp add: d2)
  have c: "unat (current_depth (hdr t2)) + length (replicate 4294967294 x) \<le> 2 ^ 32"
    by (simp add: d2)
  have t3_eq: "t3 = t2\<lparr>hdr := (hdr t2)\<lparr>current_depth := 0\<rparr>\<rparr>"
    unfolding t3_def using overflow_pushes [OF a b c] by (simp add: d2)
  have before: "data (stack t2 (Suc 0)) = 1"
    by (simp add: t2_eq naive_record_def)
  have t4_data: "data (stack t4 (Suc 0)) = 2"
    by (simp add: t4_def t3_eq x_def activity_B_def PushActivity_def d2 word_le_nat_alt)
  have "foldl apply_op fresh_tracker
          (([activity_A, activity_A] @ replicate (2 ^ 32) x) @ pops)
        = foldl apply_op t4 pops"
    by (simp only: replicate_wrap_end foldl_append t2_def t3_def t4_def)
  then have "stack (foldl apply_op fresh_tracker
          (([activity_A, activity_A] @ replicate (2 ^ 32) x) @ pops)) = stack t4"
    unfolding pops_def by (simp only: pops_stack)
  then have after: "data (stack (foldl apply_op fresh_tracker
          (([activity_A, activity_A] @ replicate (2 ^ 32) x) @ pops)) (Suc 0)) = 2"
    using t4_data by simp
  have tk: "take (unat (stack_slots_member fresh_tracker))
               ([activity_A, activity_A] @ replicate (2 ^ 32) x) = [activity_A, activity_A]"
    by (simp add: fresh_tracker_fields)
  have idx: "unat (stack_slots_member fresh_tracker) - 1 = Suc 0"
    by (simp add: fresh_tracker_fields)
  have p: "list_all is_push ([activity_A, activity_A] @ replicate (2 ^ 32) x)"
    by (simp add: list_all_length x_def activity_A_def activity_B_def nth_append nth_Cons
        split: nat.split)
  have l: "length ([activity_A, activity_A] @ replicate (2 ^ 32) x)
             = unat (stack_slots_member fresh_tracker) + 2 ^ 32"
    by (simp add: fresh_tracker_fields)
  have ne: "stack (foldl apply_op fresh_tracker
              (([activity_A, activity_A] @ replicate (2 ^ 32) x) @ pops)) (Suc 0)
            \<noteq> stack t2 (Suc 0)"
    using before after by auto
  show ?thesis
    using p l ne
    unfolding tk idx x_def [symmetric] pops_def [symmetric] t2_def [symmetric]
    by (simp only: fresh_tracker_fields simp_thms)
qed

section \<open>The reader alone computes Snapshot\<close>

text \<open>
  The steps of the reader, run to the end with no writer in between, return what the
  function \<open>Snapshot\<close> returns: the same result, the same output snapshot and the same
  memory. For a valid tracker that takes 6 steps to the copy, 5 for each record, and 6 more.
\<close>

lemma reader_alone_0 [simp]: "reader_alone tp 0 s = s"
  by (simp add: reader_alone_def run_schedule_def)

lemma reader_alone_Suc:
  "reader_alone tp (Suc n) (t, r) = reader_alone tp n (reader_step tp t r)"
  by (simp add: reader_alone_def run_schedule_def del: reader_step.simps)

lemma reader_alone_add:
  "reader_alone tp (a + b) s = reader_alone tp b (reader_alone tp a s)"
  by (simp add: reader_alone_def run_schedule_def replicate_add)

lemma copy_all_fields:
  "copy_field F_data src
     (copy_field F_call_stack src
       (copy_field F_activity_type src
         (copy_field F_origin_address src
           (copy_field F_time_internal src dst)))) = src"
  by (cases src, cases dst) simp

lemma copy_one_record:
  assumes "pc r = AtCopy i F_time_internal"
    and "i < length (activity_stack (output_snapshot r))"
  shows "reader_alone tp 5 (t, r) =
     (t, r\<lparr>output_snapshot := (output_snapshot r)
             \<lparr>activity_stack := (activity_stack (output_snapshot r))[i := stack t i]\<rparr>,
           pc := (if Suc i < unat (count_read r) then AtCopy (Suc i) F_time_internal
                  else AtLoadUnchanged)\<rparr>)"
proof -
  have five: "(5::nat) = Suc (Suc (Suc (Suc (Suc 0))))" by simp
  show ?thesis
    unfolding five
    using assms
    by (simp add: reader_alone_Suc Let_def copy_all_fields del: copy_field.simps)
qed

lemma take_Suc_update:
  "i < length ys \<Longrightarrow> take (Suc i) (ys[i := a]) = take i ys @ [a]"
  by (simp add: take_Suc_conv_app_nth)

lemma copy_phase:
  assumes "pc r = AtCopy i F_time_internal"
    and "i < k"
    and "unat (count_read r) = k"
    and "length (activity_stack (output_snapshot r)) = k"
  shows "reader_alone tp (5 * (k - i)) (t, r) =
     (t, r\<lparr>output_snapshot := (output_snapshot r)
             \<lparr>activity_stack :=
                take i (activity_stack (output_snapshot r)) @ map (stack t) [i..<k]\<rparr>,
           pc := AtLoadUnchanged\<rparr>)"
  using assms
proof (induction "k - i" arbitrary: i r)
  case 0
  then show ?case by simp
next
  case (Suc n)
  let ?ys = "activity_stack (output_snapshot r)"
  let ?r1 = "r\<lparr>output_snapshot := (output_snapshot r)\<lparr>activity_stack := ?ys[i := stack t i]\<rparr>,
               pc := (if Suc i < unat (count_read r) then AtCopy (Suc i) F_time_internal
                      else AtLoadUnchanged)\<rparr>"
  have i: "i < length ?ys" using Suc.prems by simp
  have split: "5 * (k - i) = 5 + 5 * (k - Suc i)"
    using Suc.prems(2) by arith
  have one: "reader_alone tp 5 (t, r) = (t, ?r1)"
    using copy_one_record [OF Suc.prems(1) i] .
  have upt: "[i..<k] = i # [Suc i..<k]"
    using Suc.prems(2) by (simp add: upt_conv_Cons)
  show ?case
  proof (cases "Suc i < k")
    case True
    have n: "n = k - Suc i" using Suc.hyps(2) by arith
    have p: "pc ?r1 = AtCopy (Suc i) F_time_internal"
      using True Suc.prems(3) by simp
    have c: "unat (count_read ?r1) = k" using Suc.prems(3) by simp
    have l: "length (activity_stack (output_snapshot ?r1)) = k" using Suc.prems(4) by simp
    have "reader_alone tp (5 * (k - i)) (t, r) = reader_alone tp (5 * (k - Suc i)) (t, ?r1)"
      unfolding split reader_alone_add one ..
    also have "\<dots> = (t, ?r1\<lparr>output_snapshot := (output_snapshot ?r1)
             \<lparr>activity_stack :=
                take (Suc i) (activity_stack (output_snapshot ?r1)) @ map (stack t) [Suc i..<k]\<rparr>,
           pc := AtLoadUnchanged\<rparr>)"
      using Suc.hyps(1) [OF n p True c l] .
    finally show ?thesis
      using i by (simp add: take_Suc_update upt)
  next
    case False
    with Suc.prems(2) have k: "k = Suc i" by arith
    have "reader_alone tp (5 * (k - i)) (t, r) = (t, ?r1)"
      unfolding split reader_alone_add one by (simp add: k)
    moreover have "?ys[i := stack t i] = take i ?ys @ [stack t i]"
      using take_Suc_update [OF i, of "stack t i"] Suc.prems(4) k by simp
    ultimately show ?thesis
      using Suc.prems(3) by (simp add: k)
  qed
qed

lemma resize_stack_length [simp]: "length (resize_stack n xs) = n"
  by (simp add: resize_stack_def)

lemma reader_prologue:
  assumes "IsValid t"
  shows "reader_alone tp 6 (t, start_reader out) =
     (t\<lparr>hdr := (hdr t)\<lparr>stack_unchanged := 1\<rparr>\<rparr>,
      (start_reader out)
        \<lparr>starting_process_id := Header.process_id (hdr t),
         starting_thread_id := thread_ref (hdr t),
         depth_read := current_depth (hdr t),
         count_read := min (current_depth (hdr t)) (stack_slots_member t),
         output_snapshot := out\<lparr>activity_stack :=
            resize_stack (unat (min (current_depth (hdr t)) (stack_slots_member t)))
              (activity_stack out)\<rparr>,
         pc := (if min (current_depth (hdr t)) (stack_slots_member t) > 0
                then AtCopy 0 F_time_internal else AtLoadUnchanged)\<rparr>)"
proof -
  have six: "(6::nat) = Suc (Suc (Suc (Suc (Suc (Suc 0)))))" by simp
  show ?thesis
    unfolding six using assms
    by (simp add: reader_alone_Suc start_reader_def kMaxAttempts_def Let_def)
qed

lemma reader_epilogue:
  assumes "IsValid t" and "stack_unchanged (hdr t) = 1"
    and "pc r = AtLoadUnchanged"
    and "starting_process_id r = Header.process_id (hdr t)"
    and "starting_thread_id r = thread_ref (hdr t)"
  shows "reader_alone tp 6 (t, r) =
     (t, r\<lparr>output_snapshot :=
             \<lparr>activity_stack = map (to_wall_time tp (hdr t)) (activity_stack (output_snapshot r)),
              activity_stack_depth = depth_read r,
              thread_name = snapshot_thread_name (hdr t),
              thread_id = thread_ref (hdr t),
              process_id = Header.process_id (hdr t)\<rparr>,
           pc := Returned True\<rparr>)"
proof -
  have six: "(6::nat) = Suc (Suc (Suc (Suc (Suc (Suc 0)))))" by simp
  show ?thesis
    unfolding six using assms
    by (cases "output_snapshot r")
       (simp add: reader_alone_Suc Let_def snapshot_thread_name_def)
qed

lemma reader_alone_valid:
  assumes v: "IsValid t"
  shows "reader_alone tp
           (6 + 5 * unat (min (current_depth (hdr t)) (stack_slots_member t)) + 6)
           (t, start_reader out) =
     (t\<lparr>hdr := (hdr t)\<lparr>stack_unchanged := 1\<rparr>\<rparr>,
      (start_reader out)
        \<lparr>starting_process_id := Header.process_id (hdr t),
         starting_thread_id := thread_ref (hdr t),
         depth_read := current_depth (hdr t),
         count_read := min (current_depth (hdr t)) (stack_slots_member t),
         output_snapshot := fst (snd (Snapshot tp t out)),
         pc := Returned True\<rparr>)"
proof -
  define c where "c = min (current_depth (hdr t)) (stack_slots_member t)"
  define k where "k = unat c"
  define t1 where "t1 = t\<lparr>hdr := (hdr t)\<lparr>stack_unchanged := 1\<rparr>\<rparr>"
  define r6 where "r6 = (start_reader out)
        \<lparr>starting_process_id := Header.process_id (hdr t),
         starting_thread_id := thread_ref (hdr t),
         depth_read := current_depth (hdr t),
         count_read := c,
         output_snapshot := out\<lparr>activity_stack := resize_stack k (activity_stack out)\<rparr>,
         pc := (if c > 0 then AtCopy 0 F_time_internal else AtLoadUnchanged)\<rparr>"
  define r7 where "r7 = r6\<lparr>output_snapshot :=
        (output_snapshot r6)\<lparr>activity_stack := map (stack t1) [0..<k]\<rparr>,
      pc := AtLoadUnchanged\<rparr>"
  have pro: "reader_alone tp 6 (t, start_reader out) = (t1, r6)"
    using reader_prologue [OF v, of tp out] by (simp add: t1_def r6_def c_def k_def)
  have copy: "reader_alone tp (5 * k) (t1, r6) = (t1, r7)"
  proof (cases "c > 0")
    case True
    then have k0: "0 < k"
      by (simp add: k_def word_less_nat_alt)
    have p: "pc r6 = AtCopy 0 F_time_internal" using True by (simp add: r6_def)
    have cr: "unat (count_read r6) = k" by (simp add: r6_def k_def)
    have l: "length (activity_stack (output_snapshot r6)) = k" by (simp add: r6_def)
    show ?thesis
      using copy_phase [OF p k0 cr l, of tp t1] by (simp add: r7_def)
  next
    case False
    then have c0: "c = 0" by (simp add: word_gt_0)
    then have k0: "k = 0" by (simp add: k_def)
    show ?thesis
      by (simp add: k0 r7_def r6_def c0 resize_stack_def)
  qed
  have v1: "IsValid t1" using v by (simp add: t1_def)
  have epi: "reader_alone tp 6 (t1, r7) =
     (t1, r7\<lparr>output_snapshot :=
             \<lparr>activity_stack = map (to_wall_time tp (hdr t1)) (activity_stack (output_snapshot r7)),
              activity_stack_depth = depth_read r7,
              thread_name = snapshot_thread_name (hdr t1),
              thread_id = thread_ref (hdr t1),
              process_id = Header.process_id (hdr t1)\<rparr>,
           pc := Returned True\<rparr>)"
    by (rule reader_epilogue [OF v1]) (simp_all add: t1_def r7_def r6_def)
  have "reader_alone tp (6 + 5 * k + 6) (t, start_reader out)
          = reader_alone tp 6 (reader_alone tp (5 * k) (reader_alone tp 6 (t, start_reader out)))"
    by (simp only: reader_alone_add)
  also have "\<dots> = (t1, r7\<lparr>output_snapshot :=
             \<lparr>activity_stack = map (to_wall_time tp (hdr t1)) (activity_stack (output_snapshot r7)),
              activity_stack_depth = depth_read r7,
              thread_name = snapshot_thread_name (hdr t1),
              thread_id = thread_ref (hdr t1),
              process_id = Header.process_id (hdr t1)\<rparr>,
           pc := Returned True\<rparr>)"
    by (simp only: pro copy epi)
  finally show ?thesis
    unfolding k_def [symmetric] c_def [symmetric]
    by (simp add: Snapshot_sequential [OF v] t1_def r7_def r6_def flag_irrelevant
        c_def [symmetric] k_def [symmetric])
qed

lemma reader_alone_is_Snapshot:
  "\<exists>n ok t' r'. reader_alone tp n (t, start_reader out) = (t', r') \<and>
      pc r' = Returned ok \<and> Snapshot tp t out = (ok, output_snapshot r', t')"
proof (cases "IsValid t")
  case True
  show ?thesis
    using reader_alone_valid [OF True, of tp out] Snapshot_sequential [OF True, of tp out]
    by (intro exI [of _ "6 + 5 * unat (min (current_depth (hdr t)) (stack_slots_member t)) + 6"]
          exI [of _ True]) simp
next
  case False
  have "reader_alone tp (Suc 0) (t, start_reader out) = (t, (start_reader out)\<lparr>pc := Returned False\<rparr>)"
    using False by (simp add: reader_alone_Suc start_reader_def)
  then show ?thesis
    using False by (intro exI [of _ "Suc 0"] exI [of _ False]) (simp add: Snapshot_def start_reader_def)
qed

section \<open>Witnesses for the writer operations\<close>

lemma tracker_with_A_fields:
  "current_depth (hdr tracker_with_A) = 1"
  "stack_slots_member tracker_with_A = 2"
  "stack tracker_with_A 0 = naive_record 11 0x1000 (ACT_GENERIC OR 1) 1"
  by (simp_all add: tracker_with_A_def activity_A_def PushActivity_def fresh_tracker_def
      initialise_def zero_header_def zero_activity_def naive_record_def)

text \<open>
  Witness for C1 (scenario S2 of the spec): two slots; push A, B, C, pop, pop. The snapshots
  report the depths 1, 2, 3, 2, 1 and hold the payloads of A and B as far as recorded.
\<close>

theorem Snapshot_matches_naive_model_witness:
  "IsValid fresh_tracker \<and>
   current_depth (hdr fresh_tracker) = 0 \<and>
   ops_allowed [] scenario_S2 \<and>
   snapshots_after_each (+) blank_snapshot fresh_tracker scenario_S2 =
     map (\<lambda>st. (True, naive_snapshot (+) (hdr fresh_tracker)
                         (unat (stack_slots_member fresh_tracker)) st))
         (naive_states [] scenario_S2) \<and>
   map (\<lambda>r. (fst r, activity_stack_depth (snd r), map data (activity_stack (snd r))))
       (snapshots_after_each (+) blank_snapshot fresh_tracker scenario_S2) =
     [(True, 1, [1]), (True, 2, [1, 2]), (True, 3, [1, 2]), (True, 2, [1, 2]), (True, 1, [1])]"
proof -
  have ok: "ops_allowed [] scenario_S2"
    by (simp add: scenario_S2_def activity_A_def activity_B_def activity_C_def)
  have d: "current_depth (hdr fresh_tracker) = 0"
    by (simp add: fresh_tracker_fields)
  have cs: "\<forall>i. call_stack (stack fresh_tracker i) = (\<lambda>_. 0)"
    by (simp add: fresh_tracker_def initialise_def zero_activity_def)
  note eq = Snapshot_matches_naive_model [OF IsValid_fresh_tracker d cs ok,
      of "(+)" blank_snapshot]
  have "map (\<lambda>r. (fst r, activity_stack_depth (snd r), map data (activity_stack (snd r))))
       (snapshots_after_each (+) blank_snapshot fresh_tracker scenario_S2) =
     [(True, 1, [1]), (True, 2, [1, 2]), (True, 3, [1, 2]), (True, 2, [1, 2]), (True, 1, [1])]"
    unfolding eq
    by (simp add: scenario_S2_def activity_A_def activity_B_def activity_C_def
        naive_snapshot_def naive_record_def to_wall_time_def fresh_tracker_fields)
  then show ?thesis
    using IsValid_fresh_tracker d ok eq by simp
qed



text \<open>
  Witness for C4 (property P6 of the spec): a change from \<open>GENERIC|1\<close> to \<open>GENERIC|7\<close>.
\<close>

theorem ChangeActivity_category_witness:
  "activity_type (stack tracker_with_A 0) = ACT_GENERIC OR 1 \<and>
   activity_type (stack (ChangeActivity tracker_with_A (ACT_GENERIC OR 7) kNullActivityData) 0)
     = ACT_GENERIC OR 7 \<and>
   activity_type (stack (ChangeActivity tracker_with_A (ACT_GENERIC OR 7) kNullActivityData) 0)
       AND ACT_CATEGORY_MASK = ACT_GENERIC \<and>
   data (stack (ChangeActivity tracker_with_A (ACT_GENERIC OR 7) kNullActivityData) 0) = 1"
proof -
  have le: "current_depth (hdr tracker_with_A) \<le> stack_slots_member tracker_with_A"
    by (simp add: tracker_with_A_fields)
  have i: "unat (current_depth (hdr tracker_with_A) - 1) = 0"
    by (simp add: tracker_with_A_fields)
  have ne: "ACT_GENERIC OR 7 \<noteq> ACT_NULL"
    by (simp add: ACT_GENERIC_def ACT_NULL_def)
  have dcheck: "ACT_GENERIC OR 7 \<noteq> ACT_NULL \<longrightarrow>
      current_depth (hdr tracker_with_A) \<le> stack_slots_member tracker_with_A \<longrightarrow>
      activity_type (stack tracker_with_A (unat (current_depth (hdr tracker_with_A) - 1)))
        AND ACT_CATEGORY_MASK = (ACT_GENERIC OR 7) AND ACT_CATEGORY_MASK"
    by (simp add: i tracker_with_A_fields naive_record_def ACT_GENERIC_def ACT_CATEGORY_MASK_def)
  show ?thesis
    using ChangeActivity_category [OF dcheck, of kNullActivityData] le ne
    by (simp add: i tracker_with_A_fields naive_record_def ACT_GENERIC_def ACT_CATEGORY_MASK_def)
qed

section \<open>Snapshot against a running writer\<close>

lemmas example_defs =
  tracker_with_A_def activity_A_def fresh_tracker_def initialise_def example_platform_def
  zero_header_def zero_activity_def strlcpy_def blank_snapshot_def start_reader_def
  kHeaderCookie_def kMaxAttempts_def ACT_GENERIC_def ACT_NULL_def

lemmas step_defs =
  PushActivity_def ChangeActivity_def PopActivity_def IsValid_def retry_def resize_stack_def
  to_wall_time_def zeroed_block_def Let_def

text \<open>
  Claim C2, evaluated on the code. The tracker holds one activity of type \<open>GENERIC|1\<close> with
  payload 1. While the reader copies record 0, the writer calls
  \<open>ChangeActivity(GENERIC|7, payload 9)\<close>. \<open>ChangeActivity\<close> does not store to
  \<open>stack_unchanged\<close>, so the reader finds the flag still set: the call succeeds in its first
  attempt and returns a record with the type of the old record and the payload of the new
  one, a record the slot never held.
\<close>

theorem torn_read:
  "let result = run_schedule (+) torn_read_schedule (tracker_with_A, start_reader blank_snapshot);
       old = stack tracker_with_A 0;
       new = stack (ChangeActivity tracker_with_A (ACT_GENERIC OR 7) (DataAt 9)) 0
   in pc (snd result) = Returned True \<and>
      attempt (snd result) = 0 \<and>
      map (\<lambda>a. (activity_type a, data a)) (activity_stack (output_snapshot (snd result)))
        = [(activity_type old, data new)] \<and>
      activity_type old \<noteq> activity_type new \<and>
      data old \<noteq> data new \<and>
      stack (fst result) 0 = new \<and>
      stack_unchanged (hdr (fst result)) = 1"
  by (simp add: run_schedule_def torn_read_schedule_def example_defs step_defs
      word_le_nat_alt word_less_nat_alt)


lemma Snapshot_invalid_at_entry:
  "\<not> IsValid t \<Longrightarrow> Snapshot tp t out = (False, out, t)"
  by (simp add: Snapshot_def)




section \<open>The free list\<close>

text \<open>
  Claim C8, evaluated on the code. The list holds one reference. Thread 0 loads the count 1
  and is delayed; thread 1 pushes 0xA0 at index 1; thread 3 exchanges 0xA0 out of index 1;
  thread 0 now finds index 1 empty and writes 0xE0 there; thread 2 pushes 0xF0 at index 2.
  Thread 3 fails its compare-exchange of the count and restores 0xA0 over 0xE0; thread 0
  fails its compare-exchange of the count and clears index 1, which holds 0xA0. All threads
  finish: the three pushers report success, the popper took 0xF0, the count is 3, and 0xA0
  is in no slot and in no thread's hands.
\<close>

theorem returned_reference_lost:
  "let final = run_threads 100 lost_reference_schedule (example_global, example_threads)
   in snd final =
        [Returning 0xE0 (ReturnDone True), Returning 0xA0 (ReturnDone True),
         Returning 0xF0 (ReturnDone True), Creating (CreateDone (Some 0xF0))] \<and>
      available_memories_count (fst final) = 3 \<and>
      map (available_memories (fst final)) [0, 1, 2] = [0x10, 0, 0xE0] \<and>
      (\<forall>i. available_memories (fst final) i \<noteq> 0xA0)"
  by (simp add: run_threads_def lost_reference_schedule_def example_global_def
      example_threads_def while_test_def Let_def)

lemma return_step_count_bounded:
  assumes "return_step K g ref p = (g', p')"
    and "available_memories_count g \<le> K"
    and "pending_below K (Returning ref p)"
  shows "available_memories_count g' \<le> K \<and> pending_below K (Returning ref p')"
  using assms by (cases p) (auto simp add: Let_def split: if_splits)

lemma create_step_count_bounded:
  assumes "create_step g p = (g', p')"
    and "available_memories_count g \<le> K"
  shows "available_memories_count g' \<le> K"
  using assms by (cases p) (auto simp add: Let_def split: if_splits)

lemma thread_step_count_bounded:
  assumes "thread_step K g th = (g', th')"
    and "available_memories_count g \<le> K"
    and "pending_below K th"
  shows "available_memories_count g' \<le> K \<and> pending_below K th'"
proof (cases th)
  case (Returning ref p)
  then show ?thesis
    using assms return_step_count_bounded [of K g ref p]
    by (auto split: prod.splits)
next
  case (Creating p)
  then show ?thesis
    using assms create_step_count_bounded [of g p _ _ K]
    by (auto split: prod.splits)
qed

lemma schedule_step_count_bounded:
  assumes "count_bounded K s"
  shows "count_bounded K (schedule_step K s i)"
proof (cases s)
  case (Pair g ths)
  show ?thesis
  proof (cases "i < length ths")
    case False
    then show ?thesis using assms Pair by simp
  next
    case True
    obtain g' th' where st: "thread_step K g (ths ! i) = (g', th')"
      by (cases "thread_step K g (ths ! i)")
    have "pending_below K (ths ! i)"
      using assms Pair True by (simp add: count_bounded_def list_all_length)
    then have "available_memories_count g' \<le> K \<and> pending_below K th'"
      using thread_step_count_bounded [OF st] assms Pair by (simp add: count_bounded_def)
    moreover have "list_all (pending_below K) ths"
      using assms Pair by (simp add: count_bounded_def)
    ultimately show ?thesis
      using Pair True st by (auto simp add: count_bounded_def list_all_length nth_list_update)
  qed
qed

text \<open>
  A zero below the count stops every pop: the popper exchanges the zero out, yields, loads
  the same count and is back where it was, with the list unchanged. The state that the
  schedule above leaves behind has such a zero at index 1.
\<close>

lemma pop_spins_on_hole:
  assumes "0 < available_memories_count g"
    and "available_memories g (available_memories_count g - 1) = 0"
  shows "create_step g LoadCountToPop = (g, ExchangeSlot (available_memories_count g)) \<and>
         create_step g (ExchangeSlot (available_memories_count g)) = (g, LoadCountToPop)"
proof -
  have "(available_memories g)(available_memories_count g - 1 := 0) = available_memories g"
    using assms(2) by (simp add: fun_upd_idem)
  then show ?thesis
    using assms by (simp add: while_test_def Let_def)
qed

text \<open>
  The part of C8 that holds: in every interleaving of the steps of any number of pushers
  and poppers the count never exceeds \<open>kMaxThreadCount\<close>.
\<close>

lemma free_count_bounded:
  "count_bounded K s \<Longrightarrow> count_bounded K (run_threads K sched s)"
  unfolding run_threads_def
  by (induction sched arbitrary: s) (simp_all add: schedule_step_count_bounded)

lemma return_step_memory:
  "return_step K g ref p = (g', p') \<Longrightarrow>
     memory_blocks g' = memory_blocks g \<and> stack_depth g' = stack_depth g"
  by (cases p) (auto simp add: Let_def split: if_splits)

lemma push_loop_memory:
  assumes "push_loop K g ref p = Some g'"
  shows "memory_blocks g' = memory_blocks g \<and> stack_depth g' = stack_depth g"
proof (rule push_loop.raw_induct [where P = "\<lambda>K g ref p g'.
          memory_blocks g' = memory_blocks g \<and> stack_depth g' = stack_depth g", OF _ assms],
       goal_cases)
  case (1 loop K g ref p y)
  show ?case
  proof (cases p)
    case (ReturnDone b)
    with 1(2) show ?thesis by simp
  next
    case LoadCountToPush
    obtain g1 p1 where s: "return_step K g ref p = (g1, p1)"
      by (cases "return_step K g ref p")
    with 1(2) LoadCountToPush have "loop K g1 ref p1 = Some y" by simp
    from 1(1) [OF this] return_step_memory [OF s] show ?thesis by simp
  next
    case (CasSlot c)
    obtain g1 p1 where s: "return_step K g ref p = (g1, p1)"
      by (cases "return_step K g ref p")
    with 1(2) CasSlot have "loop K g1 ref p1 = Some y" by simp
    from 1(1) [OF this] return_step_memory [OF s] show ?thesis by simp
  next
    case (CasCount c)
    obtain g1 p1 where s: "return_step K g ref p = (g1, p1)"
      by (cases "return_step K g ref p")
    with 1(2) CasCount have "loop K g1 ref p1 = Some y" by simp
    from 1(1) [OF this] return_step_memory [OF s] show ?thesis by simp
  next
    case (ClearSlot c)
    obtain g1 p1 where s: "return_step K g ref p = (g1, p1)"
      by (cases "return_step K g ref p")
    with 1(2) ClearSlot have "loop K g1 ref p1 = Some y" by simp
    from 1(1) [OF this] return_step_memory [OF s] show ?thesis by simp
  qed
qed

lemma zero_region_invalid:
  "\<not> IsValid \<lparr>hdr = fst (zero_region n blk), stack = snd (zero_region n blk),
              stack_slots_member = k, valid_member = v\<rparr>"
  by (simp add: IsValid_def zero_region_def zero_header_def kHeaderCookie_def)

lemma push_loop_pushes:
  assumes "available_memories_count g < K"
    and "available_memories g (available_memories_count g) = 0"
  shows "push_loop K g ref LoadCountToPush =
     Some (g\<lparr>available_memories := (available_memories g)(available_memories_count g := ref),
             available_memories_count := available_memories_count g + 1\<rparr>)"
proof -
  let ?c = "available_memories_count g"
  let ?g1 = "g\<lparr>available_memories := (available_memories g)(?c := ref)\<rparr>"
  have "push_loop K g ref LoadCountToPush = push_loop K g ref (CasSlot ?c)"
    using assms(1) by (subst push_loop.simps) (simp add: Let_def)
  also have "\<dots> = push_loop K ?g1 ref (CasCount ?c)"
    using assms(2) by (subst push_loop.simps) simp
  also have "\<dots> = push_loop K (?g1\<lparr>available_memories_count := ?c + 1\<rparr>) ref (ReturnDone True)"
    by (subst push_loop.simps) simp
  also have "\<dots> = Some (?g1\<lparr>available_memories_count := ?c + 1\<rparr>)"
    by (subst push_loop.simps) simp
  finally show ?thesis .
qed

lemma push_loop_abandons:
  assumes "K \<le> available_memories_count g"
  shows "push_loop K g ref LoadCountToPush = Some g"
proof -
  have "push_loop K g ref LoadCountToPush = push_loop K g ref (ReturnDone False)"
    using assms by (subst push_loop.simps) (simp add: Let_def)
  also have "\<dots> = Some g"
    by (subst push_loop.simps) simp
  finally show ?thesis .
qed

lemma ReturnTrackerMemory_pushes:
  assumes "mem_reference tracker \<noteq> 0"
    and "available_memories_count g < K"
    and "available_memories g (available_memories_count g) = 0"
  shows "ReturnTrackerMemory K g tracker =
     Some (g\<lparr>memory_blocks := memset_block (stack_depth g) (mem_base tracker) (memory_blocks g),
             thread_tracker_count := thread_tracker_count g - 1,
             block_types := block_types (fst (ChangeType g (mem_reference tracker)
                                kTypeIdActivityTrackerFree kTypeIdActivityTracker)),
             available_memories :=
               (available_memories g)(available_memories_count g := mem_reference tracker),
             available_memories_count := available_memories_count g + 1\<rparr>)"
proof -
  let ?g3 = "fst (ChangeType
      (g\<lparr>memory_blocks := memset_block (stack_depth g) (mem_base tracker) (memory_blocks g),
         thread_tracker_count := thread_tracker_count g - 1\<rparr>)
      (mem_reference tracker) kTypeIdActivityTrackerFree kTypeIdActivityTracker)"
  have c: "available_memories_count ?g3 = available_memories_count g"
    "available_memories ?g3 = available_memories g"
    by (simp_all add: ChangeType_def)
  have "ReturnTrackerMemory K g tracker = push_loop K ?g3 (mem_reference tracker) LoadCountToPush"
    using assms(1) by (simp add: ReturnTrackerMemory_def Let_def)
  also have "\<dots> = Some (?g3\<lparr>available_memories :=
        (available_memories ?g3)(available_memories_count ?g3 := mem_reference tracker),
      available_memories_count := available_memories_count ?g3 + 1\<rparr>)"
    by (rule push_loop_pushes) (simp_all add: c assms)
  finally show ?thesis
    by (simp add: ChangeType_def)
qed

lemma ReturnTrackerMemory_abandons:
  assumes "mem_reference tracker \<noteq> 0"
    and "K \<le> available_memories_count g"
  shows "\<exists>g'. ReturnTrackerMemory K g tracker = Some g' \<and>
           available_memories g' = available_memories g \<and>
           available_memories_count g' = available_memories_count g"
proof -
  let ?g3 = "fst (ChangeType
      (g\<lparr>memory_blocks := memset_block (stack_depth g) (mem_base tracker) (memory_blocks g),
         thread_tracker_count := thread_tracker_count g - 1\<rparr>)
      (mem_reference tracker) kTypeIdActivityTrackerFree kTypeIdActivityTracker)"
  have c: "available_memories_count ?g3 = available_memories_count g"
    "available_memories ?g3 = available_memories g"
    by (simp_all add: ChangeType_def)
  have "ReturnTrackerMemory K g tracker = push_loop K ?g3 (mem_reference tracker) LoadCountToPush"
    using assms(1) by (simp add: ReturnTrackerMemory_def Let_def)
  also have "\<dots> = Some ?g3"
    by (rule push_loop_abandons) (simp add: c assms)
  finally show ?thesis
    using c by simp
qed

lemma ReturnTrackerMemory_returns:
  assumes "available_memories_count g < K \<longrightarrow>
           available_memories g (available_memories_count g) = 0"
  shows "\<exists>g'. ReturnTrackerMemory K g tracker = Some g'"
proof (cases "mem_reference tracker = 0")
  case True
  then show ?thesis by (simp add: ReturnTrackerMemory_def Let_def)
next
  case False
  show ?thesis
  proof (cases "available_memories_count g < K")
    case True
    with assms show ?thesis
      using ReturnTrackerMemory_pushes [OF False True] by simp
  next
    case False
    then have "K \<le> available_memories_count g" by simp
    then show ?thesis
      using ReturnTrackerMemory_abandons [OF \<open>mem_reference tracker \<noteq> 0\<close>] by blast
  qed
qed

text \<open>
  Claim C7. \<open>ReturnTrackerMemory\<close> returns whenever the slot at the count is empty or the
  list is full (as it is when no other thread is in the middle of a push or a pop). When it
  returns, the block of an allocator-backed tracker is still in memory with its header and
  all its \<open>stack_depth\<close> records zero, and a heap block is gone; the block was cleared before
  the push loop began, and no step of the push loop writes to a block. In the cleared block
  \<open>process_id\<close> reads zero, so for every tracker object laid over it \<open>IsValid\<close> is false and
  \<open>Snapshot\<close> returns false, leaving its output as it was.
\<close>

theorem ReturnTrackerMemory_zeroes_block:
  assumes "memory_blocks g (mem_base tracker) = Some blk"
  shows "((available_memories_count g < K \<longrightarrow>
             available_memories g (available_memories_count g) = 0) \<longrightarrow>
            (\<exists>g'. ReturnTrackerMemory K g tracker = Some g')) \<and>
         (\<forall>g'. ReturnTrackerMemory K g tracker = Some g' \<longrightarrow>
            (mem_reference tracker \<noteq> 0 \<longrightarrow>
               memory_blocks g' (mem_base tracker) = Some (zero_region (stack_depth g) blk)) \<and>
            (mem_reference tracker = 0 \<longrightarrow> memory_blocks g' (mem_base tracker) = None)) \<and>
         (\<forall>g0 ref p g1 p1. return_step K g0 ref p = (g1, p1) \<longrightarrow>
            memory_blocks g1 = memory_blocks g0) \<and>
         fst (zero_region (stack_depth g) blk) = zero_header \<and>
         (\<forall>i. i < stack_depth g \<longrightarrow> snd (zero_region (stack_depth g) blk) i = zero_activity) \<and>
         (\<forall>n v out.
            Header.process_id (fst (zero_region (stack_depth g) blk)) = 0 \<and>
            \<not> IsValid \<lparr>hdr = fst (zero_region (stack_depth g) blk),
                       stack = snd (zero_region (stack_depth g) blk),
                       stack_slots_member = n, valid_member = v\<rparr> \<and>
            fst (Snapshot tp \<lparr>hdr = fst (zero_region (stack_depth g) blk),
                              stack = snd (zero_region (stack_depth g) blk),
                              stack_slots_member = n, valid_member = v\<rparr> out) = False \<and>
            fst (snd (Snapshot tp \<lparr>hdr = fst (zero_region (stack_depth g) blk),
                              stack = snd (zero_region (stack_depth g) blk),
                              stack_slots_member = n, valid_member = v\<rparr> out)) = out)"
proof -
  let ?g2 = "g\<lparr>memory_blocks := memset_block (stack_depth g) (mem_base tracker) (memory_blocks g),
               thread_tracker_count := thread_tracker_count g - 1\<rparr>"
  have zeroed: "memory_blocks ?g2 (mem_base tracker) = Some (zero_region (stack_depth g) blk)"
    using assms by (simp add: memset_block_def)
  have pushed: "memory_blocks g' (mem_base tracker) = Some (zero_region (stack_depth g) blk)"
    if "ReturnTrackerMemory K g tracker = Some g'" and "mem_reference tracker \<noteq> 0" for g'
  proof -
    let ?g3 = "fst (ChangeType ?g2 (mem_reference tracker)
                     kTypeIdActivityTrackerFree kTypeIdActivityTracker)"
    have "push_loop K ?g3 (mem_reference tracker) LoadCountToPush = Some g'"
      using that by (simp add: ReturnTrackerMemory_def Let_def)
    then have "memory_blocks g' = memory_blocks ?g3"
      using push_loop_memory by blast
    moreover have "memory_blocks ?g3 = memory_blocks ?g2"
      by (simp add: ChangeType_def)
    ultimately show ?thesis
      using zeroed by simp
  qed
  have freed: "memory_blocks g' (mem_base tracker) = None"
    if "ReturnTrackerMemory K g tracker = Some g'" and "mem_reference tracker = 0" for g'
    using that by (auto simp add: ReturnTrackerMemory_def Let_def)
  have steps: "\<forall>g0 ref p g1 p1. return_step K g0 ref p = (g1, p1) \<longrightarrow>
                 memory_blocks g1 = memory_blocks g0"
    using return_step_memory by blast
  have returns: "(available_memories_count g < K \<longrightarrow>
             available_memories g (available_memories_count g) = 0) \<longrightarrow>
            (\<exists>g'. ReturnTrackerMemory K g tracker = Some g')"
    using ReturnTrackerMemory_returns by blast
  have outcome: "\<forall>g'. ReturnTrackerMemory K g tracker = Some g' \<longrightarrow>
            (mem_reference tracker \<noteq> 0 \<longrightarrow>
               memory_blocks g' (mem_base tracker) = Some (zero_region (stack_depth g) blk)) \<and>
            (mem_reference tracker = 0 \<longrightarrow> memory_blocks g' (mem_base tracker) = None)"
    using pushed freed by blast
  have cleared: "fst (zero_region (stack_depth g) blk) = zero_header \<and>
         (\<forall>i. i < stack_depth g \<longrightarrow> snd (zero_region (stack_depth g) blk) i = zero_activity)"
    by (simp add: zero_region_def)
  have snap: "\<forall>n v out.
            Header.process_id (fst (zero_region (stack_depth g) blk)) = 0 \<and>
            \<not> IsValid \<lparr>hdr = fst (zero_region (stack_depth g) blk),
                       stack = snd (zero_region (stack_depth g) blk),
                       stack_slots_member = n, valid_member = v\<rparr> \<and>
            fst (Snapshot tp \<lparr>hdr = fst (zero_region (stack_depth g) blk),
                              stack = snd (zero_region (stack_depth g) blk),
                              stack_slots_member = n, valid_member = v\<rparr> out) = False \<and>
            fst (snd (Snapshot tp \<lparr>hdr = fst (zero_region (stack_depth g) blk),
                              stack = snd (zero_region (stack_depth g) blk),
                              stack_slots_member = n, valid_member = v\<rparr> out)) = out"
    using zero_region_invalid [of "stack_depth g" blk]
    by (simp add: Snapshot_invalid_at_entry) (simp add: zero_region_def zero_header_def)
  show ?thesis
    using returns outcome steps cleared snap by blast
qed

text \<open>
  Witness for C7: the live block of \<open>tracker_with_A\<close> is returned; the call pushes its
  reference on the empty free list, and a snapshot of the cleared block fails.
\<close>

theorem ReturnTrackerMemory_zeroes_block_witness:
  "(\<exists>g'. ReturnTrackerMemory 100 live_global \<lparr>mem_reference = 0xA0, mem_base = 0x7000\<rparr> = Some g' \<and>
         memory_blocks live_global 0x7000 = Some (hdr tracker_with_A, stack tracker_with_A) \<and>
         memory_blocks g' 0x7000
           = Some (zero_region 2 (hdr tracker_with_A, stack tracker_with_A)) \<and>
         available_memories g' 0 = 0xA0 \<and>
         available_memories_count g' = 1) \<and>
   IsValid tracker_with_A \<and>
   fst (Snapshot (+)
          \<lparr>hdr = fst (zero_region 2 (hdr tracker_with_A, stack tracker_with_A)),
           stack = snd (zero_region 2 (hdr tracker_with_A, stack tracker_with_A)),
           stack_slots_member = 2, valid_member = True\<rparr> blank_snapshot) = False"
proof -
  define tr where "tr = \<lparr>mem_reference = 0xA0, mem_base = 0x7000\<rparr>"
  define blk where "blk = (hdr tracker_with_A, stack tracker_with_A)"
  have a: "mem_reference tr \<noteq> 0" by (simp add: tr_def)
  have b: "available_memories_count live_global < 100" by (simp add: live_global_def)
  have c: "available_memories live_global (available_memories_count live_global) = 0"
    by (simp add: live_global_def)
  have m: "memory_blocks live_global (mem_base tr) = Some blk"
    by (simp add: live_global_def tr_def blk_def)
  have d: "stack_depth live_global = 2" by (simp add: live_global_def)
  have v: "IsValid tracker_with_A"
    by (simp add: IsValid_def example_defs PushActivity_def Let_def)
  note z = ReturnTrackerMemory_zeroes_block [OF m, of 100 "(+)", unfolded d]
  from z c obtain g' where r: "ReturnTrackerMemory 100 live_global tr = Some g'"
    by blast
  have "available_memories (the (ReturnTrackerMemory 100 live_global tr)) 0 = 0xA0 \<and>
        available_memories_count (the (ReturnTrackerMemory 100 live_global tr)) = 1"
    unfolding ReturnTrackerMemory_pushes [OF a b c]
    by (simp add: live_global_def tr_def)
  with r have l: "available_memories g' 0 = 0xA0" "available_memories_count g' = 1"
    by simp_all
  from z r a have z1: "memory_blocks g' (mem_base tr) = Some (zero_region 2 blk)"
    by blast
  from z have z2: "fst (Snapshot (+) \<lparr>hdr = fst (zero_region 2 blk), stack = snd (zero_region 2 blk),
                     stack_slots_member = 2, valid_member = True\<rparr> blank_snapshot) = False"
    by blast
  show ?thesis
    using r l m z1 z2 v unfolding tr_def blk_def by auto
qed

section \<open>Construction on invalid arguments\<close>

text \<open>
  Claim C5, evaluated on the code. With a null base the constructor returns early, leaving
  \<open>header_\<close> null. \<open>IsValid\<close>, \<open>PushActivity\<close> and \<open>Snapshot\<close> begin by reading through
  \<open>header_\<close>: on this tracker each of them is an access to unmapped memory, not a return.
\<close>

theorem null_base_tracker_faults:
  assumes "m 0 = None"
  shows "\<exists>obj. new_ThreadActivityTracker p m 0 sz = Inr (m, obj) \<and>
           header_ptr obj = 0 \<and>
           IsValid_object m obj = Inl InvalidMemoryAccess \<and>
           PushActivity_object m obj now origin ty d = Inl InvalidMemoryAccess \<and>
           Snapshot_object tp m obj out = Inl InvalidMemoryAccess"
  using assms
  by (simp add: new_ThreadActivityTracker_def IsValid_object_def PushActivity_object_def
      Snapshot_object_def through_header_def Let_def)

text \<open>
  Witness for C5: a memory in which nothing is mapped.
\<close>

theorem null_base_tracker_faults_witness:
  "(\<lambda>_. None) (0 :: 64 word) = (None :: (Header \<times> (nat \<Rightarrow> Activity)) option) \<and>
   (\<exists>obj. new_ThreadActivityTracker example_platform (\<lambda>_. None) 0 1000 = Inr ((\<lambda>_. None), obj) \<and>
          IsValid_object (\<lambda>_. None) obj = Inl InvalidMemoryAccess)"
proof -
  have h: "(\<lambda>_. None) (0 :: 64 word) = (None :: (Header \<times> (nat \<Rightarrow> Activity)) option)"
    by simp
  from null_base_tracker_faults [OF h, where p = example_platform and sz = 1000 and now = 0
      and origin = 0 and ty = 0 and d = kNullActivityData and tp = "(+)" and out = blank_snapshot]
  show ?thesis by blast
qed

text \<open>
  The part of C5 that holds: with a base that points at a header, a size the constructor
  rejects gives a tracker on which \<open>IsValid\<close> returns false.
\<close>

lemma rejected_size_tracker_invalid:
  assumes "base \<noteq> 0" and "m base = Some blk"
    and "sz < sizeof_Header + kMinStackDepth * sizeof_Activity p \<or>
         (sz - sizeof_Header) div sizeof_Activity p > 0xFFFFFFFF"
  shows "\<exists>obj. new_ThreadActivityTracker p m base sz = Inr (m, obj) \<and>
           IsValid_object m obj = Inr False"
  using assms
  by (cases blk)
     (auto simp add: new_ThreadActivityTracker_def IsValid_object_def through_header_def
        Let_def IsValid_def)

text \<open>
  On a zeroed block of \<open>sizeof(Header) + 2 * sizeof(Activity)\<close> bytes the constructor
  initialises the header; the tracker it leaves is \<open>fresh_tracker\<close>, and it is valid.
\<close>

lemma constructor_on_zeroed_block:
  assumes "m 0x7000 = Some (zero_header, (\<lambda>_. zero_activity))"
  shows "\<exists>m' obj. new_ThreadActivityTracker example_platform m 0x7000 312 = Inr (m', obj) \<and>
           through_header m' obj = Inr fresh_tracker \<and>
           IsValid_object m' obj = Inr True"
proof -
  have s: "sizeof_Activity example_platform = 112"
    by (simp add: example_platform_def)
  have n: "(ucast (((312 :: 64 word) - sizeof_Header) div 112) :: 32 word) = 2"
    by (simp add: sizeof_Header_def)
  have ok: "\<not> ((0x7000 :: 64 word) = 0 \<or>
              (312 :: 64 word) < sizeof_Header + kMinStackDepth * 112 \<or>
              ((312 :: 64 word) - sizeof_Header) div 112 > 0xFFFFFFFF)"
    by (simp add: sizeof_Header_def kMinStackDepth_def)
  have c: "cookie zero_header = 0"
    by (simp add: zero_header_def)
  show ?thesis
    using assms ok IsValid_fresh_tracker
    by (simp add: new_ThreadActivityTracker_def Let_def s n through_header_def c write_back_def
        IsValid_object_def fresh_tracker_def initialise_def)
qed


end
